theory Spec2Isabelle
  imports Main "HOL-Library.AList" "HOL-Library.Word"
begin

section \<open>JSON values\<close>

text \<open>
  The editor works on \<^verbatim>\<open>ordered_json = nlohmann::basic_json<fifo_map>\<close>
  (\<^verbatim>\<open>json_types.hpp\<close>), a JSON value of the nlohmann library whose objects are kept in
  a \<^verbatim>\<open>fifo_map\<close>. The library's operations are modelled as the library documents them.
  Numbers keep the library's three representations; a floating-point number is carried as
  its 64 bits and is never computed with.

  How far an array can grow is a matter of the machine: \<^verbatim>\<open>arr[idx]\<close> beyond the size
  asks the vector for \<open>idx + 1\<close> elements at once, and the vector throws
  \<^verbatim>\<open>std::length_error\<close> or \<^verbatim>\<open>std::bad_alloc\<close> when it cannot hold that many. The
  functions below take this limit as the parameter \<open>cap\<close>: an array can be grown to
  \<open>cap\<close> elements and no further. The general statements hold for every \<open>cap\<close>. An
  element that a growth creates is null, and a null ends the walk down a path, so one
  resolution grows one array at most. The other operations ask for no more than one
  element or one member beyond what the document already holds and are taken to succeed.
\<close>

text \<open>
  Modelled from the spec: the order of an object's keys. The container
  \<^verbatim>\<open>fifo_map.hpp\<close> that \<^verbatim>\<open>json_types.hpp\<close> includes is not among the sources. The
  specification gives objects insertion order: a new key goes to the end, a key that is
  overwritten stays where it is, and a key that is erased and added again goes to the end.
  An object is therefore an association list, oldest key first, in which no key occurs
  twice.
\<close>

datatype json =
    JNull
  | JObject "(string \<times> json) list"
  | JArray "json list"
  | JString string
  | JBoolean bool
  | JNumberInteger int
  | JNumberUnsigned nat
  | JNumberFloat "64 word"

text \<open>\<^verbatim>\<open>json::value_t\<close>, the type tag of a value, as far as the editor meets it.\<close>

datatype value_t =
    t_null | t_object | t_array | t_string | t_boolean
  | t_number_integer | t_number_unsigned | t_number_float | t_discarded

fun type_of :: "json \<Rightarrow> value_t" where
  "type_of JNull = t_null"
| "type_of (JObject kvs) = t_object"
| "type_of (JArray xs) = t_array"
| "type_of (JString s) = t_string"
| "type_of (JBoolean b) = t_boolean"
| "type_of (JNumberInteger i) = t_number_integer"
| "type_of (JNumberUnsigned n) = t_number_unsigned"
| "type_of (JNumberFloat w) = t_number_float"

definition is_object :: "json \<Rightarrow> bool" where
  "is_object j = (type_of j = t_object)"

definition is_array :: "json \<Rightarrow> bool" where
  "is_array j = (type_of j = t_array)"

definition is_null :: "json \<Rightarrow> bool" where
  "is_null j = (type_of j = t_null)"

definition is_string :: "json \<Rightarrow> bool" where
  "is_string j = (type_of j = t_string)"

text \<open>
  The exceptions the program can meet: the two of \<^verbatim>\<open>std::stoul\<close>, the one of a
  vector asked to grow beyond what it can hold (\<open>length_error\<close> stands for
  \<^verbatim>\<open>std::bad_alloc\<close> as well; no handler in the program tells them apart), and the
  library's \<^verbatim>\<open>type_error\<close> (305: \<^verbatim>\<open>operator[]\<close> on the wrong type,
  307: \<^verbatim>\<open>erase\<close> on the wrong type, 308: \<^verbatim>\<open>push_back\<close> on the wrong type).
\<close>

datatype exn = invalid_argument | out_of_range | length_error | type_error nat

subsection \<open>The library operations the editor calls\<close>

text \<open>
  \<^verbatim>\<open>obj[key]\<close> on an object yields a reference to the member, inserting a
  null member at the end when the key is absent. \<open>member_or_null\<close> is the value the
  reference points to after that insertion; storing through the reference is
  \<^const>\<open>AList.update\<close>, which overwrites in place or appends at the end.
\<close>

definition member_or_null :: "(string \<times> json) list \<Rightarrow> string \<Rightarrow> json" where
  "member_or_null kvs k = (case map_of kvs k of Some v \<Rightarrow> v | None \<Rightarrow> JNull)"

definition contains_key :: "(string \<times> json) list \<Rightarrow> string \<Rightarrow> bool" where
  "contains_key kvs k = (map_of kvs k \<noteq> None)"

text \<open>
  \<^verbatim>\<open>arr[idx]\<close> on an array that is not const does no range check: an index at or beyond
  the size first fills the array with nulls up to that index. \<open>can_hold\<close> says whether
  the access succeeds: the index is within the size, or the array can be grown to hold it;
  otherwise the growth throws and the array is as before. \<open>fill_to\<close> is the array after
  an access that succeeds.
\<close>

definition can_hold :: "nat \<Rightarrow> nat \<Rightarrow> json list \<Rightarrow> bool" where
  "can_hold cap idx xs = (idx < length xs \<or> idx < cap)"

definition fill_to :: "nat \<Rightarrow> json list \<Rightarrow> json list" where
  "fill_to idx xs = (if idx < length xs then xs else xs @ replicate (idx + 1 - length xs) JNull)"

text \<open>
  A capacity for the examples: the \<^verbatim>\<open>max_size()\<close> of a vector of 16-byte elements where
  the largest object has \<open>2\<^sup>6\<^sup>3 - 1\<close> bytes, which is \<open>(2\<^sup>6\<^sup>3 - 1) div 16\<close>. A request
  beyond it throws \<^verbatim>\<open>std::length_error\<close> whatever memory the machine has.
\<close>

definition vector_max_size :: nat where
  "vector_max_size = 576460752303423487"

text \<open>\<^verbatim>\<open>erase(idx)\<close> on an array whose size exceeds \<open>idx\<close>.\<close>

definition erase_index :: "nat \<Rightarrow> 'a list \<Rightarrow> 'a list" where
  "erase_index idx xs = take idx xs @ drop (Suc idx) xs"

definition insert_index :: "nat \<Rightarrow> 'a \<Rightarrow> 'a list \<Rightarrow> 'a list" where
  "insert_index idx x xs = take idx xs @ x # drop idx xs"

subsection \<open>Decimal strings\<close>

text \<open>
  \<^verbatim>\<open>std::stoul\<close> (base 10, 64-bit \<^verbatim>\<open>unsigned long\<close>): leading white space is
  skipped, one sign is accepted, then the longest run of digits is read and the rest of
  the string is ignored. No digit at all throws \<^verbatim>\<open>invalid_argument\<close>, a magnitude
  beyond \<open>2^64 - 1\<close> throws \<^verbatim>\<open>out_of_range\<close>, and a minus sign negates modulo
  \<open>2^64\<close>. The digits are accumulated as an integer and the result is the index as a
  natural number.
\<close>

definition isspace :: "char \<Rightarrow> bool" where
  "isspace c = (c \<in> set [CHR '' '', CHR 0x09, CHR 0x0A, CHR 0x0B, CHR 0x0C, CHR 0x0D])"

definition digit_chars :: "char list" where
  "digit_chars = ''0123456789''"

definition isdigit :: "char \<Rightarrow> bool" where
  "isdigit c = (c \<in> set digit_chars)"

fun digit_value :: "char list \<Rightarrow> char \<Rightarrow> nat" where
  "digit_value [] c = 0"
| "digit_value (d # ds) c = (if c = d then 0 else Suc (digit_value ds c))"

definition digits_value :: "string \<Rightarrow> int" where
  "digits_value ds = foldl (\<lambda>acc c. acc * 10 + int (digit_value digit_chars c)) 0 ds"

definition stoul :: "string \<Rightarrow> exn + nat" where
  "stoul str =
     (let s1 = dropWhile isspace str;
          negative = (s1 \<noteq> [] \<and> hd s1 = CHR ''-'');
          s2 = (if s1 \<noteq> [] \<and> (hd s1 = CHR ''-'' \<or> hd s1 = CHR ''+'') then tl s1 else s1);
          ds = takeWhile isdigit s2
      in if ds = [] then Inl invalid_argument
         else if 2 ^ 64 \<le> digits_value ds then Inl out_of_range
         else Inr (nat (if negative then (2 ^ 64 - digits_value ds) mod 2 ^ 64
                        else digits_value ds)))"

text \<open>\<^verbatim>\<open>std::to_string\<close> of an unsigned number.\<close>

function to_string :: "nat \<Rightarrow> string" where
  "to_string n =
     (if n < 10 then [digit_chars ! n]
      else to_string (n div 10) @ [digit_chars ! (n mod 10)])"
  by pat_completeness auto
termination
  by (relation "measure id") auto

declare to_string.simps [simp del]

section \<open>Path resolution\<close>

text \<open>
  \<^verbatim>\<open>GetNode\<close> walks a pointer from the root down the path. The pointer is modelled by
  the steps it has taken: the member or element it moved into at each level. The walk can
  change the document (a missing key or a short array is filled in by \<^verbatim>\<open>operator[]\<close>),
  so it returns the document as it leaves it together with the position reached, or
  \<open>None\<close> when \<^verbatim>\<open>std::stoul\<close> or the growth of an array threw.

  A node that is neither an object nor an array consumes the segment without moving.
\<close>

datatype step = Member string | Element nat

fun walk :: "nat \<Rightarrow> json \<Rightarrow> string list \<Rightarrow> json \<times> step list option" where
  "walk cap node [] = (node, Some [])"
| "walk cap (JObject kvs) (key_or_index # rest) =
     (case walk cap (member_or_null kvs key_or_index) rest of
        (child, r) \<Rightarrow>
          (JObject (AList.update key_or_index child kvs),
           map_option (Cons (Member key_or_index)) r))"
| "walk cap (JArray xs) (key_or_index # rest) =
     (case stoul key_or_index of
        Inl e \<Rightarrow> (JArray xs, None)
      | Inr index \<Rightarrow>
          (if can_hold cap index xs then
             (case walk cap (fill_to index xs ! index) rest of
                (child, r) \<Rightarrow>
                  (JArray ((fill_to index xs)[index := child]),
                   map_option (Cons (Element index)) r))
           else (JArray xs, None)))"
| "walk cap node (key_or_index # rest) = walk cap node rest"

text \<open>
  \<^verbatim>\<open>GetNode(root, path)\<close>: the document after the walk and the position of the node
  whose reference is returned. The \<^verbatim>\<open>catch (...)\<close> returns the root, position \<open>[]\<close>.
\<close>

definition GetNode :: "nat \<Rightarrow> json \<Rightarrow> string list \<Rightarrow> json \<times> step list" where
  "GetNode cap root path =
     (case walk cap root path of
        (root', Some pos) \<Rightarrow> (root', pos)
      | (root', None) \<Rightarrow> (root', []))"

text \<open>Reading the node at a position; \<open>None\<close> when the position does not exist.\<close>

fun node_at :: "json \<Rightarrow> step list \<Rightarrow> json option" where
  "node_at node [] = Some node"
| "node_at (JObject kvs) (Member k # pos) =
     (case map_of kvs k of Some child \<Rightarrow> node_at child pos | None \<Rightarrow> None)"
| "node_at (JArray xs) (Element i # pos) =
     (if i < length xs then node_at (xs ! i) pos else None)"
| "node_at node (s # pos) = None"


text \<open>The node a returned reference points to. A position returned by \<open>GetNode\<close> exists.\<close>

definition deref :: "json \<times> step list \<Rightarrow> json" where
  "deref r = (case node_at (fst r) (snd r) of Some node \<Rightarrow> node | None \<Rightarrow> JNull)"

text \<open>
  Working through a reference: \<open>at_node doc pos f\<close> replaces the node at \<open>pos\<close> by what
  \<open>f\<close> makes of it; when \<open>f\<close> throws, so does the whole.
\<close>

fun at_node :: "json \<Rightarrow> step list \<Rightarrow> (json \<Rightarrow> exn + json) \<Rightarrow> exn + json" where
  "at_node node [] f = f node"
| "at_node (JObject kvs) (Member k # pos) f =
     (case map_of kvs k of
        None \<Rightarrow> Inr (JObject kvs)
      | Some child \<Rightarrow>
          (case at_node child pos f of
             Inl e \<Rightarrow> Inl e
           | Inr child' \<Rightarrow> Inr (JObject (AList.update k child' kvs))))"
| "at_node (JArray xs) (Element i # pos) f =
     (if i < length xs then
        (case at_node (xs ! i) pos f of
           Inl e \<Rightarrow> Inl e
         | Inr child' \<Rightarrow> Inr (JArray (xs[i := child'])))
      else Inr (JArray xs))"
| "at_node node (s # pos) f = Inr node"

text \<open>
  \<open>through (GetNode doc path) f\<close>: resolve, then run \<open>f\<close> on the referenced node. An
  exception leaves the document as the resolution left it.
\<close>

definition through :: "json \<times> step list \<Rightarrow> (json \<Rightarrow> exn + json) \<Rightarrow> exn \<times> json + json" where
  "through r f =
     (case at_node (fst r) (snd r) f of
        Inl e \<Rightarrow> Inl (e, fst r)
      | Inr doc' \<Rightarrow> Inr doc')"

text \<open>
  \<open>replace_at doc pos n\<close> is \<open>doc\<close> with the node at \<open>pos\<close> replaced by \<open>n\<close>: the
  document after the node behind a reference has been given the value \<open>n\<close>.
\<close>

fun replace_at :: "json \<Rightarrow> step list \<Rightarrow> json \<Rightarrow> json" where
  "replace_at node [] n = n"
| "replace_at (JObject kvs) (Member k # pos) n =
     (case map_of kvs k of
        None \<Rightarrow> JObject kvs
      | Some child \<Rightarrow> JObject (AList.update k (replace_at child pos n) kvs))"
| "replace_at (JArray xs) (Element i # pos) n =
     (if i < length xs then JArray (xs[i := replace_at (xs ! i) pos n]) else JArray xs)"
| "replace_at node (s # pos) n = node"

section \<open>Operations on a node\<close>

text \<open>
  \<^verbatim>\<open>node[key] = value\<close>. On an object the member is overwritten where it stands or
  appended at the end; a null node first becomes an empty object; any other node throws
  \<^verbatim>\<open>type_error\<close> 305.
\<close>

fun assign_member :: "string \<Rightarrow> json \<Rightarrow> json \<Rightarrow> exn + json" where
  "assign_member key v (JObject kvs) = Inr (JObject (AList.update key v kvs))"
| "assign_member key v JNull = Inr (JObject [(key, v)])"
| "assign_member key v node = Inl (type_error 305)"

text \<open>\<^verbatim>\<open>node.erase(key)\<close>: only an object has members to erase.\<close>

fun erase_key :: "string \<Rightarrow> json \<Rightarrow> exn + json" where
  "erase_key key (JObject kvs) = Inr (JObject (AList.delete key kvs))"
| "erase_key key node = Inl (type_error 307)"

text \<open>\<^verbatim>\<open>node.push_back(value)\<close>: a null node first becomes an empty array.\<close>

fun push_back :: "json \<Rightarrow> json \<Rightarrow> exn + json" where
  "push_back v (JArray xs) = Inr (JArray (xs @ [v]))"
| "push_back v JNull = Inr (JArray [v])"
| "push_back v node = Inl (type_error 308)"

fun empty_json :: "json \<Rightarrow> bool" where
  "empty_json JNull = True"
| "empty_json (JObject kvs) = (kvs = [])"
| "empty_json (JArray xs) = (xs = [])"
| "empty_json node = False"

fun size_json :: "json \<Rightarrow> nat" where
  "size_json JNull = 0"
| "size_json (JObject kvs) = length kvs"
| "size_json (JArray xs) = length xs"
| "size_json node = 1"

text \<open>
  \<^verbatim>\<open>node.erase(idx)\<close>: removes the element of an array; an index at or beyond the size
  throws the library's \<^verbatim>\<open>out_of_range\<close>, a node that is no array \<^verbatim>\<open>type_error\<close> 307.
\<close>

fun erase_element :: "nat \<Rightarrow> json \<Rightarrow> exn + json" where
  "erase_element idx (JArray xs) =
     (if idx < length xs then Inr (JArray (erase_index idx xs)) else Inl out_of_range)"
| "erase_element idx node = Inl (type_error 307)"

section \<open>The document mutations\<close>

text \<open>
  Each \<^verbatim>\<open>Execute...\<close> method resolves the parent path afresh and works on the node it
  gets. The result is the new document, or the exception that escapes together with the
  document at that moment.

  An \<^verbatim>\<open>int\<close> index is compared with a size after conversion to unsigned, so a
  negative index fails every such comparison. Sizes stay below \<open>2^31\<close>.

  \<^verbatim>\<open>ExecuteEditValue\<close> has the store into an array inside \<^verbatim>\<open>try\<close> with an empty
  \<^verbatim>\<open>catch (...)\<close>: when \<^verbatim>\<open>std::stoul\<close> throws, or the array cannot be grown to hold
  the index, nothing is stored and nothing escapes. The store into any other node stands
  outside the \<^verbatim>\<open>try\<close>.
\<close>

definition ExecuteEditValue :: "nat \<Rightarrow> string list \<Rightarrow> string \<Rightarrow> json \<Rightarrow> json \<Rightarrow> exn \<times> json + json" where
  "ExecuteEditValue cap path key v doc =
     through (GetNode cap doc path)
       (\<lambda>parent.
          case parent of
            JArray xs \<Rightarrow>
              (case stoul key of
                 Inl e \<Rightarrow> Inr parent
               | Inr index \<Rightarrow>
                   (if can_hold cap index xs
                    then Inr (JArray ((fill_to index xs)[index := v]))
                    else Inr parent))
          | _ \<Rightarrow> assign_member key v parent)"

definition ExecuteAddKey :: "nat \<Rightarrow> string list \<Rightarrow> string \<Rightarrow> json \<Rightarrow> json \<Rightarrow> exn \<times> json + json" where
  "ExecuteAddKey cap path key v doc = through (GetNode cap doc path) (assign_member key v)"

definition ExecuteRemoveKey :: "nat \<Rightarrow> string list \<Rightarrow> string \<Rightarrow> json \<Rightarrow> exn \<times> json + json" where
  "ExecuteRemoveKey cap path key doc = through (GetNode cap doc path) (erase_key key)"

definition ExecuteAddArrayElement :: "nat \<Rightarrow> string list \<Rightarrow> json \<Rightarrow> json \<Rightarrow> exn \<times> json + json" where
  "ExecuteAddArrayElement cap path v doc = through (GetNode cap doc path) (push_back v)"

definition ExecuteRemoveLastArrayElement :: "nat \<Rightarrow> string list \<Rightarrow> json \<Rightarrow> exn \<times> json + json" where
  "ExecuteRemoveLastArrayElement cap path doc =
     through (GetNode cap doc path)
       (\<lambda>arr. if \<not> empty_json arr then erase_element (size_json arr - 1) arr else Inr arr)"

definition ExecuteInsertArrayElement :: "nat \<Rightarrow> string list \<Rightarrow> int \<Rightarrow> json \<Rightarrow> json \<Rightarrow> exn \<times> json + json" where
  "ExecuteInsertArrayElement cap path index v doc =
     through (GetNode cap doc path)
       (\<lambda>arr.
          case arr of
            JArray xs \<Rightarrow>
              (if 0 \<le> index \<and> nat index \<le> length xs
               then Inr (JArray (insert_index (nat index) v xs))
               else Inr arr)
          | _ \<Rightarrow> Inr arr)"

definition ExecuteRemoveArrayElement :: "nat \<Rightarrow> string list \<Rightarrow> int \<Rightarrow> json \<Rightarrow> exn \<times> json + json" where
  "ExecuteRemoveArrayElement cap path index doc =
     through (GetNode cap doc path)
       (\<lambda>arr.
          case arr of
            JArray xs \<Rightarrow>
              (if 0 \<le> index \<and> nat index < length xs
               then erase_element (nat index) arr
               else Inr arr)
          | _ \<Rightarrow> Inr arr)"

text \<open>
  \<^verbatim>\<open>node[new_key] = node[old_key]; node.erase(old_key);\<close> The right-hand side is
  evaluated first and inserts a null \<open>old_key\<close> when it is absent; the value found there
  is then stored under \<open>new_key\<close>, and \<open>old_key\<close> is erased.
\<close>

fun rename_member :: "string \<Rightarrow> string \<Rightarrow> json \<Rightarrow> exn + json" where
  "rename_member old_key new_key (JObject kvs) =
     (let kvs1 = (if contains_key kvs old_key then kvs else kvs @ [(old_key, JNull)]);
          kvs2 = AList.update new_key (member_or_null kvs old_key) kvs1
      in Inr (JObject (AList.delete old_key kvs2)))"
| "rename_member old_key new_key JNull =
     (let kvs2 = AList.update new_key JNull [(old_key, JNull)]
      in Inr (JObject (AList.delete old_key kvs2)))"
| "rename_member old_key new_key node = Inl (type_error 305)"

definition ExecuteRenameKey :: "nat \<Rightarrow> string list \<Rightarrow> string \<Rightarrow> string \<Rightarrow> json \<Rightarrow> exn \<times> json + json" where
  "ExecuteRenameKey cap path old_key new_key doc =
     through (GetNode cap doc path) (rename_member old_key new_key)"

section \<open>History\<close>

text \<open>
  An \<^verbatim>\<open>EditAction\<close> holds two closures. Each closure captures its arguments by value and
  makes exactly one \<^verbatim>\<open>Execute...\<close> call, so a closure is the name of that call with
  the captured arguments.
\<close>

datatype closure =
    EditValue "string list" string json
  | AddKey "string list" string json
  | RemoveKey "string list" string
  | AddArrayElement "string list" json
  | RemoveLastArrayElement "string list"
  | InsertArrayElement "string list" int json
  | RemoveArrayElement "string list" int
  | RenameKey "string list" string string

fun invoke :: "nat \<Rightarrow> closure \<Rightarrow> json \<Rightarrow> exn \<times> json + json" where
  "invoke cap (EditValue p k v) doc = ExecuteEditValue cap p k v doc"
| "invoke cap (AddKey p k v) doc = ExecuteAddKey cap p k v doc"
| "invoke cap (RemoveKey p k) doc = ExecuteRemoveKey cap p k doc"
| "invoke cap (AddArrayElement p v) doc = ExecuteAddArrayElement cap p v doc"
| "invoke cap (RemoveLastArrayElement p) doc = ExecuteRemoveLastArrayElement cap p doc"
| "invoke cap (InsertArrayElement p i v) doc = ExecuteInsertArrayElement cap p i v doc"
| "invoke cap (RemoveArrayElement p i) doc = ExecuteRemoveArrayElement cap p i doc"
| "invoke cap (RenameKey p old_key new_key) doc = ExecuteRenameKey cap p old_key new_key doc"

record EditAction =
  undo :: closure
  redo :: closure
  path :: "string list"
  focus_key :: string

text \<open>The two stacks of \<^verbatim>\<open>HistoryManager\<close>; the top of a stack is the head of the list.\<close>

record HistoryManager =
  undo_stack :: "EditAction list"
  redo_stack :: "EditAction list"

text \<open>\<^verbatim>\<open>while (!redo_stack_.empty()) redo_stack_.pop();\<close>\<close>

fun pop_all :: "EditAction list \<Rightarrow> EditAction list" where
  "pop_all [] = []"
| "pop_all (a # stack) = pop_all stack"

definition Push :: "EditAction \<Rightarrow> HistoryManager \<Rightarrow> HistoryManager" where
  "Push action h = \<lparr>undo_stack = action # undo_stack h, redo_stack = pop_all (redo_stack h)\<rparr>"

definition CanUndo :: "HistoryManager \<Rightarrow> bool" where
  "CanUndo h = (undo_stack h \<noteq> [])"

definition CanRedo :: "HistoryManager \<Rightarrow> bool" where
  "CanRedo h = (redo_stack h \<noteq> [])"

text \<open>
  \<^verbatim>\<open>Undo\<close> and \<^verbatim>\<open>Redo\<close> act on the document through the closure. They return the
  action replayed (\<open>None\<close> for \<^verbatim>\<open>nullptr\<close>), the stacks and the document. When the
  closure throws, the action has left its stack and has not reached the other one.
\<close>

definition Undo ::
  "nat \<Rightarrow> HistoryManager \<Rightarrow> json \<Rightarrow> exn \<times> HistoryManager \<times> json + EditAction option \<times> HistoryManager \<times> json" where
  "Undo cap h doc =
     (if \<not> CanUndo h then Inr (None, h, doc)
      else
        (let action = hd (undo_stack h);
             h1 = h\<lparr>undo_stack := tl (undo_stack h)\<rparr>
         in case invoke cap (undo action) doc of
              Inl (e, doc') \<Rightarrow> Inl (e, h1, doc')
            | Inr doc' \<Rightarrow> Inr (Some action, h1\<lparr>redo_stack := action # redo_stack h1\<rparr>, doc')))"

definition Redo ::
  "nat \<Rightarrow> HistoryManager \<Rightarrow> json \<Rightarrow> exn \<times> HistoryManager \<times> json + EditAction option \<times> HistoryManager \<times> json" where
  "Redo cap h doc =
     (if \<not> CanRedo h then Inr (None, h, doc)
      else
        (let action = hd (redo_stack h);
             h1 = h\<lparr>redo_stack := tl (redo_stack h)\<rparr>
         in case invoke cap (redo action) doc of
              Inl (e, doc') \<Rightarrow> Inl (e, h1, doc')
            | Inr doc' \<Rightarrow> Inr (Some action, h1\<lparr>undo_stack := action # undo_stack h1\<rparr>, doc')))"

section \<open>The editor\<close>

record TreeEntry =
  label :: string
  key :: string
  type :: value_t

text \<open>
  The fields of \<^verbatim>\<open>JsonEditor\<close> that the document, history, navigation and search
  logic reads or writes. The widgets and the two display buffers filled from
  \<^verbatim>\<open>dump()\<close> belong to the terminal layer and are left out; keyboard focus is a
  property of the widgets.
\<close>

record JsonEditor =
  input_json :: json
  history_manager :: HistoryManager
  selected_tree_item_index :: int
  selected_editor_tab_index :: int
  current_path :: "string list"
  entries :: "TreeEntry list"
  menu_entries :: "string list"
  editor_hint :: string
  modal_state :: int
  new_key :: string
  new_value :: string
  rename_key :: string
  search_query :: string
  search_from_root :: bool
  search_results :: "string list list"
  current_search_result_index :: int
  search_result_labels :: "string list"

definition CleanStringForJson :: "string \<Rightarrow> string" where
  "CleanStringForJson str = filter (\<lambda>c. c \<noteq> CHR 0x0A) str"

definition child_entry :: "string \<Rightarrow> json \<Rightarrow> TreeEntry" where
  "child_entry k val =
     \<lparr>label = k @ (if is_object val then '' (Object)''
                   else if is_array val then '' (Array)'' else []),
      key = k, type = type_of val\<rparr>"

fun array_entries :: "nat \<Rightarrow> json list \<Rightarrow> TreeEntry list" where
  "array_entries i [] = []"
| "array_entries i (val # vals) = child_entry (to_string i) val # array_entries (Suc i) vals"

definition UpdateTreeEntries :: "nat \<Rightarrow> JsonEditor \<Rightarrow> JsonEditor" where
  "UpdateTreeEntries cap s =
     (let up = (if current_path s \<noteq> []
                then [\<lparr>label = ''..'', key = ''..'', type = t_discarded\<rparr>] else []);
          r = GetNode cap (input_json s) (current_path s);
          es = up @ (case deref r of
                       JObject kvs \<Rightarrow> map (\<lambda>(k, val). child_entry k val) kvs
                     | JArray xs \<Rightarrow> array_entries 0 xs
                     | _ \<Rightarrow> [])
      in s\<lparr>input_json := fst r, entries := es, menu_entries := map label es\<rparr>)"

text \<open>The selection tests: an index is usable when it is neither negative nor beyond the list.\<close>

definition no_selection :: "JsonEditor \<Rightarrow> bool" where
  "no_selection s =
     (entries s = [] \<or> selected_tree_item_index s < 0
      \<or> int (length (entries s)) \<le> selected_tree_item_index s)"

definition GetCurrentSelectionKey :: "JsonEditor \<Rightarrow> string" where
  "GetCurrentSelectionKey s =
     (if no_selection s then ''[None]''
      else key (entries s ! nat (selected_tree_item_index s)))"

text \<open>
  \<^verbatim>\<open>GetCurrentSelectedNode\<close>: the document after the resolution, the key written to
  \<^verbatim>\<open>out_key\<close>, and the node the returned pointer points to (\<open>None\<close> for
  \<^verbatim>\<open>nullptr\<close>, which is also what the \<^verbatim>\<open>catch (...)\<close> around the array access
  returns).
\<close>

definition GetCurrentSelectedNode :: "nat \<Rightarrow> JsonEditor \<Rightarrow> json \<times> string \<times> json option" where
  "GetCurrentSelectedNode cap s =
     (if no_selection s then (input_json s, ''[None]'', None)
      else
        (let out_key = key (entries s ! nat (selected_tree_item_index s)) in
         if out_key = ''..'' then (input_json s, ''..'', None)
         else
           (let r = GetNode cap (input_json s) (current_path s) in
            case deref r of
              JArray xs \<Rightarrow>
                (case stoul out_key of
                   Inl e \<Rightarrow> (fst r, out_key, None)
                 | Inr index \<Rightarrow>
                     (if can_hold cap index xs then
                        (case at_node (fst r) (snd r) (\<lambda>n. Inr (JArray (fill_to index xs))) of
                           Inl e \<Rightarrow> (fst r, out_key, None)
                         | Inr doc' \<Rightarrow> (doc', out_key, Some (fill_to index xs ! index)))
                      else (fst r, out_key, None)))
            | JObject kvs \<Rightarrow>
                (if contains_key kvs out_key
                 then (fst r, out_key, Some (member_or_null kvs out_key))
                 else (fst r, out_key, None))
            | _ \<Rightarrow> (fst r, out_key, None))))"

definition UpdateEditorPane :: "nat \<Rightarrow> JsonEditor \<Rightarrow> JsonEditor" where
  "UpdateEditorPane cap s =
     (case GetCurrentSelectedNode cap s of
        (doc', out_key, None) \<Rightarrow>
          s\<lparr>input_json := doc', editor_hint := [], selected_editor_tab_index := 0\<rparr>
      | (doc', out_key, Some selected_node) \<Rightarrow>
          (if \<not> is_object selected_node \<and> \<not> is_array selected_node
           then s\<lparr>input_json := doc', editor_hint := ''[Enter] to save change'',
                  selected_editor_tab_index := 1\<rparr>
           else s\<lparr>input_json := doc', editor_hint := [], selected_editor_tab_index := 0\<rparr>))"

fun index_of_key :: "nat \<Rightarrow> TreeEntry list \<Rightarrow> string \<Rightarrow> int" where
  "index_of_key i [] k = - 1"
| "index_of_key i (e # es) k = (if key e = k then int i else index_of_key (Suc i) es k)"

definition GetIndexFromEntries :: "JsonEditor \<Rightarrow> string \<Rightarrow> int" where
  "GetIndexFromEntries s k = index_of_key 0 (entries s) k"

definition RefreshTreeAndCloseModal :: "nat \<Rightarrow> int \<Rightarrow> JsonEditor \<Rightarrow> JsonEditor" where
  "RefreshTreeAndCloseModal cap focus_index s =
     (let s1 = UpdateTreeEntries cap s;
          i = (if focus_index < 0 \<or> int (length (entries s1)) \<le> focus_index
               then 0 else focus_index);
          s2 = UpdateEditorPane cap (s1\<lparr>selected_tree_item_index := i\<rparr>)
      in s2\<lparr>modal_state := 0\<rparr>)"

definition RestoreView :: "nat \<Rightarrow> EditAction \<Rightarrow> JsonEditor \<Rightarrow> JsonEditor" where
  "RestoreView cap action s =
     (let s1 = UpdateTreeEntries cap (s\<lparr>current_path := path action\<rparr>);
          new_index = GetIndexFromEntries s1 (focus_key action)
      in UpdateEditorPane cap (s1\<lparr>selected_tree_item_index := new_index\<rparr>))"

text \<open>
  An exception that leaves a handler ends the event loop; \<open>Inl\<close> carries it with the
  editor as it stands at that moment.
\<close>

definition PerformUndo :: "nat \<Rightarrow> JsonEditor \<Rightarrow> exn \<times> JsonEditor + JsonEditor" where
  "PerformUndo cap s =
     (if CanUndo (history_manager s) then
        (case Undo cap (history_manager s) (input_json s) of
           Inl (e, h, doc') \<Rightarrow> Inl (e, s\<lparr>input_json := doc', history_manager := h\<rparr>)
         | Inr (None, h, doc') \<Rightarrow> Inr (s\<lparr>input_json := doc', history_manager := h\<rparr>)
         | Inr (Some action, h, doc') \<Rightarrow>
             Inr (RestoreView cap action (s\<lparr>input_json := doc', history_manager := h\<rparr>)))
      else Inr s)"

definition PerformRedo :: "nat \<Rightarrow> JsonEditor \<Rightarrow> exn \<times> JsonEditor + JsonEditor" where
  "PerformRedo cap s =
     (if CanRedo (history_manager s) then
        (case Redo cap (history_manager s) (input_json s) of
           Inl (e, h, doc') \<Rightarrow> Inl (e, s\<lparr>input_json := doc', history_manager := h\<rparr>)
         | Inr (None, h, doc') \<Rightarrow> Inr (s\<lparr>input_json := doc', history_manager := h\<rparr>)
         | Inr (Some action, h, doc') \<Rightarrow>
             Inr (RestoreView cap action (s\<lparr>input_json := doc', history_manager := h\<rparr>)))
      else Inr s)"

subsection \<open>The modal handlers\<close>

text \<open>
  \<^verbatim>\<open>json::parse\<close> is the library's parser; the handlers that read a value literal take
  it as \<open>parse\<close>, \<open>None\<close> standing for its exception. Text that does not parse is kept as
  a string.
\<close>

definition parse_or_string :: "(string \<Rightarrow> json option) \<Rightarrow> string \<Rightarrow> json" where
  "parse_or_string parse txt = (case parse txt of Some v \<Rightarrow> v | None \<Rightarrow> JString txt)"

text \<open>
  \<^verbatim>\<open>UpdateJsonValue\<close> works on the parent node it is given: the target is
  \<^verbatim>\<open>parent_node[std::stoul(key)]\<close> for an array and \<^verbatim>\<open>parent_node[key]\<close> for an object.
  Whatever the array access throws makes the function return with nothing stored.
\<close>

definition UpdateJsonValue :: "nat \<Rightarrow> (string \<Rightarrow> json option) \<Rightarrow> string \<Rightarrow> string \<Rightarrow> json \<Rightarrow> json" where
  "UpdateJsonValue cap parse k new_text parent_node =
     (let cleaned_value = CleanStringForJson new_text in
      case parent_node of
        JArray xs \<Rightarrow>
          (case stoul k of
             Inl e \<Rightarrow> parent_node
           | Inr index \<Rightarrow>
               (if can_hold cap index xs
                then JArray ((fill_to index xs)[index := parse_or_string parse cleaned_value])
                else parent_node))
      | JObject kvs \<Rightarrow> JObject (AList.update k (parse_or_string parse cleaned_value) kvs)
      | _ \<Rightarrow> parent_node)"

definition OnAddSubmit :: "nat \<Rightarrow> (string \<Rightarrow> json option) \<Rightarrow> JsonEditor \<Rightarrow> exn \<times> JsonEditor + JsonEditor" where
  "OnAddSubmit cap parse s =
     (let r = GetNode cap (input_json s) (current_path s);
          s0 = s\<lparr>input_json := fst r\<rparr>;
          p = current_path s
      in
      if is_object (deref r) then
        (let cleaned_key = CleanStringForJson (new_key s) in
         if cleaned_key = [] then Inr (s0\<lparr>editor_hint := ''Error: Key cannot be empty.''\<rparr>)
         else
           (case ExecuteAddKey cap p cleaned_key JNull (input_json s0) of
              Inl (e, doc') \<Rightarrow> Inl (e, s0\<lparr>input_json := doc'\<rparr>)
            | Inr doc' \<Rightarrow>
                (let s1 = s0\<lparr>input_json := doc',
                            history_manager :=
                              Push \<lparr>undo = RemoveKey p cleaned_key,
                                    redo = AddKey p cleaned_key JNull,
                                    path = p, focus_key = cleaned_key\<rparr>
                                   (history_manager s0)\<rparr>;
                     s2 = UpdateTreeEntries cap s1;
                     new_index = GetIndexFromEntries s2 cleaned_key
                 in Inr (RefreshTreeAndCloseModal cap new_index s2))))
      else if is_array (deref r) then
        (let cleaned_value = CleanStringForJson (new_value s);
             parsed_value = parse_or_string parse cleaned_value
         in
           (case ExecuteAddArrayElement cap p parsed_value (input_json s0) of
              Inl (e, doc') \<Rightarrow> Inl (e, s0\<lparr>input_json := doc'\<rparr>)
            | Inr doc' \<Rightarrow>
                (let s1 = s0\<lparr>input_json := doc',
                            history_manager :=
                              Push \<lparr>undo = RemoveLastArrayElement p,
                                    redo = AddArrayElement p parsed_value,
                                    path = p,
                                    focus_key = to_string (size_json (deref (doc', snd r)) - 1)\<rparr>
                                   (history_manager s0)\<rparr>;
                     s2 = UpdateTreeEntries cap s1;
                     new_index = int (length (entries s2)) - 1
                 in Inr (RefreshTreeAndCloseModal cap new_index s2))))
      else Inr (s0\<lparr>modal_state := 0\<rparr>))"

text \<open>
  \<^verbatim>\<open>OnDeleteSubmit\<close> runs its body inside \<^verbatim>\<open>try\<close>: whatever is thrown there only sets
  the hint. Reading \<^verbatim>\<open>node[key]\<close> for the deleted value goes through \<^verbatim>\<open>operator[]\<close>
  like every other access.
\<close>

definition OnDeleteSubmit :: "nat \<Rightarrow> JsonEditor \<Rightarrow> JsonEditor" where
  "OnDeleteSubmit cap s =
     (let k = GetCurrentSelectionKey s in
      if k = ''[None]'' \<or> k = ''..'' then s
      else
        (let r = GetNode cap (input_json s) (current_path s);
             s0 = s\<lparr>input_json := fst r\<rparr>;
             p = current_path s;
             failed = (\<lambda>doc'. s0\<lparr>input_json := doc', editor_hint := ''Error: Failed to delete item.''\<rparr>);
             s3 =
               (case deref r of
                  JObject kvs \<Rightarrow>
                    (let deleted_value = member_or_null kvs k in
                     case at_node (fst r) (snd r)
                            (\<lambda>n. Inr (JObject (AList.update k deleted_value kvs))) of
                       Inl e \<Rightarrow> failed (fst r)
                     | Inr doc1 \<Rightarrow>
                         (case ExecuteRemoveKey cap p k doc1 of
                            Inl (e, doc') \<Rightarrow> failed doc'
                          | Inr doc' \<Rightarrow>
                              s0\<lparr>input_json := doc',
                                 history_manager :=
                                   Push \<lparr>undo = AddKey p k deleted_value,
                                         redo = RemoveKey p k,
                                         path = p, focus_key = k\<rparr>
                                        (history_manager s0)\<rparr>))
                | JArray xs \<Rightarrow>
                    (case stoul k of
                       Inl e \<Rightarrow> failed (fst r)
                     | Inr n \<Rightarrow>
                         (let deleted_index = int n;
                              deleted_value = fill_to n xs ! n
                          in
                          if \<not> can_hold cap n xs then failed (fst r)
                          else
                          case at_node (fst r) (snd r) (\<lambda>n'. Inr (JArray (fill_to n xs))) of
                            Inl e \<Rightarrow> failed (fst r)
                          | Inr doc1 \<Rightarrow>
                              (case ExecuteRemoveArrayElement cap p deleted_index doc1 of
                                 Inl (e, doc') \<Rightarrow> failed doc'
                               | Inr doc' \<Rightarrow>
                                   s0\<lparr>input_json := doc',
                                      history_manager :=
                                        Push \<lparr>undo = InsertArrayElement p deleted_index deleted_value,
                                              redo = RemoveArrayElement p deleted_index,
                                              path = p,
                                              focus_key =
                                                to_string (if 0 < n then n - 1 else 0)\<rparr>
                                             (history_manager s0)\<rparr>)))
                | _ \<Rightarrow> s0)
         in RefreshTreeAndCloseModal cap (selected_tree_item_index s - 1) s3))"

definition OnRenameSubmit :: "nat \<Rightarrow> JsonEditor \<Rightarrow> exn \<times> JsonEditor + JsonEditor" where
  "OnRenameSubmit cap s =
     (let r = GetNode cap (input_json s) (current_path s);
          s0 = s\<lparr>input_json := fst r\<rparr>
      in
      case deref r of
        JObject kvs \<Rightarrow>
          (let cleaned_key = CleanStringForJson (rename_key s) in
           if cleaned_key = [] then Inr (s0\<lparr>editor_hint := ''Error: Key cannot be empty.''\<rparr>)
           else
             (let current_key = GetCurrentSelectionKey s0 in
              if cleaned_key \<noteq> current_key \<and> contains_key kvs cleaned_key
              then Inr (s0\<lparr>editor_hint := ''Error: This key is already in use.''\<rparr>)
              else
                (case ExecuteRenameKey cap (current_path s0) current_key cleaned_key (input_json s0) of
                   Inl (e, doc') \<Rightarrow> Inl (e, s0\<lparr>input_json := doc'\<rparr>)
                 | Inr doc' \<Rightarrow>
                     (let p = current_path s0;
                          s1 = s0\<lparr>input_json := doc',
                                 history_manager :=
                                   Push \<lparr>undo = RenameKey p cleaned_key current_key,
                                         redo = RenameKey p current_key cleaned_key,
                                         path = p, focus_key = cleaned_key\<rparr>
                                        (history_manager s0)\<rparr>;
                          s2 = UpdateTreeEntries cap s1;
                          new_index = GetIndexFromEntries s2 cleaned_key
                      in Inr (RefreshTreeAndCloseModal cap new_index s2)))))
      | _ \<Rightarrow> Inr (s0\<lparr>modal_state := 0\<rparr>))"

subsection \<open>Committing an edit from the editor pane\<close>

text \<open>
  \<^verbatim>\<open>OnEditorEnter\<close> runs when Enter is pressed in the editor pane. The text of the pane,
  \<^verbatim>\<open>editable_content_\<close>, is what the user has typed; it is the handler's input \<open>txt\<close>.

  \<^verbatim>\<open>node_ptr\<close> is the pointer \<^verbatim>\<open>GetCurrentSelectedNode\<close> has returned: it points at
  \<^verbatim>\<open>parent[std::stoul(key)]\<close> or \<^verbatim>\<open>parent[key]\<close>. \<^verbatim>\<open>UpdateJsonValue\<close> stores into that
  same element or member and moves nothing, so when the handler then asks
  \<^verbatim>\<open>node_ptr->is_array()\<close> the pointer reads the child as the store has left it.
  \<open>pointee key parent\<close> is that read in the parent after the store.
\<close>

definition pointee :: "string \<Rightarrow> json \<Rightarrow> json" where
  "pointee k parent =
     (case parent of
        JArray xs \<Rightarrow>
          (case stoul k of
             Inl e \<Rightarrow> JNull
           | Inr index \<Rightarrow> (if index < length xs then xs ! index else JNull))
      | JObject kvs \<Rightarrow> member_or_null kvs k
      | _ \<Rightarrow> JNull)"

text \<open>
  \<^verbatim>\<open>try { new_node_ptr = &parent_node[std::stoul(key)]; } catch (...) { }\<close>: the parent
  after the access and the node referred to, or \<open>None\<close> when \<^verbatim>\<open>std::stoul\<close>, the growth
  of the array or the library (\<^verbatim>\<open>type_error\<close> 305, a number as index into a node that
  is neither an array nor null) has thrown and the pointer stays null.
\<close>

definition subscript_index :: "nat \<Rightarrow> string \<Rightarrow> json \<Rightarrow> (json \<times> json) option" where
  "subscript_index cap k parent =
     (case stoul k of
        Inl e \<Rightarrow> None
      | Inr index \<Rightarrow>
          (case parent of
             JArray xs \<Rightarrow>
               (if can_hold cap index xs
                then Some (JArray (fill_to index xs), fill_to index xs ! index)
                else None)
           | JNull \<Rightarrow>
               (if can_hold cap index []
                then Some (JArray (fill_to index []), fill_to index [] ! index)
                else None)
           | _ \<Rightarrow> None))"

text \<open>
  \<^verbatim>\<open>new_node_ptr = &parent_node[key];\<close> stands outside any \<^verbatim>\<open>try\<close>: the parent after
  the access and the node referred to, or \<^verbatim>\<open>type_error\<close> 305 for a parent that is neither
  an object nor null.
\<close>

definition subscript_key :: "string \<Rightarrow> json \<Rightarrow> exn + json \<times> json" where
  "subscript_key k parent =
     (case parent of
        JObject kvs \<Rightarrow>
          Inr (JObject (if contains_key kvs k then kvs else kvs @ [(k, JNull)]),
               member_or_null kvs k)
      | JNull \<Rightarrow> Inr (JObject [(k, JNull)], JNull)
      | _ \<Rightarrow> Inl (type_error 305))"

text \<open>
  \<^verbatim>\<open>old_value != *new_node_ptr\<close> is the library's comparison of two values; the handler
  takes it as \<open>differs\<close>.
\<close>

definition OnEditorEnter ::
  "nat \<Rightarrow> (string \<Rightarrow> json option) \<Rightarrow> (json \<Rightarrow> json \<Rightarrow> bool) \<Rightarrow> string \<Rightarrow> JsonEditor
   \<Rightarrow> exn \<times> JsonEditor + JsonEditor" where
  "OnEditorEnter cap parse differs txt s =
     (case GetCurrentSelectedNode cap s of
        (doc0, k, None) \<Rightarrow> Inr (s\<lparr>input_json := doc0\<rparr>)
      | (doc0, k, Some old_value) \<Rightarrow>
          (let r = GetNode cap doc0 (current_path s);
               parent1 = UpdateJsonValue cap parse k txt (deref r);
               p = current_path s;
               record_edit = (\<lambda>parent2 new_node.
                 (let s2 = s\<lparr>input_json := replace_at (fst r) (snd r) parent2\<rparr>
                  in if differs old_value new_node
                     then s2\<lparr>history_manager :=
                               Push \<lparr>undo = EditValue p k old_value,
                                     redo = EditValue p k new_node,
                                     path = p, focus_key = k\<rparr>
                                    (history_manager s)\<rparr>
                     else s2))
           in
           if is_array (pointee k parent1) then
             (case subscript_index cap k parent1 of
                None \<Rightarrow>
                  Inr (UpdateTreeEntries cap
                         (s\<lparr>input_json := replace_at (fst r) (snd r) parent1\<rparr>))
              | Some (parent2, new_node) \<Rightarrow>
                  Inr (UpdateTreeEntries cap (record_edit parent2 new_node)))
           else
             (case subscript_key k parent1 of
                Inl e \<Rightarrow> Inl (e, s\<lparr>input_json := replace_at (fst r) (snd r) parent1\<rparr>)
              | Inr (parent2, new_node) \<Rightarrow>
                  Inr (UpdateTreeEntries cap (record_edit parent2 new_node)))))"

section \<open>Search\<close>

text \<open>\<^verbatim>\<open>text.find(query) != std::string::npos\<close>: the query occurs somewhere in the text.\<close>

fun starts_with :: "string \<Rightarrow> string \<Rightarrow> bool" where
  "starts_with txt [] = True"
| "starts_with [] (q # qs) = False"
| "starts_with (c # txt) (q # qs) = (c = q \<and> starts_with txt qs)"

fun found_in :: "string \<Rightarrow> string \<Rightarrow> bool" where
  "found_in query [] = (query = [])"
| "found_in query (c # txt) = (starts_with (c # txt) query \<or> found_in query txt)"

fun get_path_string :: "string list \<Rightarrow> string" where
  "get_path_string [] = []"
| "get_path_string [seg] = seg"
| "get_path_string (seg # segs) = seg @ '' > '' @ get_path_string segs"

definition key_label :: "string \<Rightarrow> string list \<Rightarrow> string" where
  "key_label k p = ''Key: '' @ k @ '' (Path: '' @ get_path_string p @ '')''"

definition val_label :: "string \<Rightarrow> string list \<Rightarrow> string" where
  "val_label v p = ''Val: '' @ v @ '' (Path: '' @ get_path_string p @ '')''"

text \<open>
  \<^verbatim>\<open>search_recursive\<close> pushes onto \<^verbatim>\<open>search_results_\<close> and
  \<^verbatim>\<open>search_result_labels_\<close> as it goes; the pair of both lists is threaded through.
  \<open>search_members\<close> and \<open>search_elements\<close> are its two loops.
\<close>

type_synonym hits = "string list list \<times> string list"

definition push_hit :: "string list \<Rightarrow> string \<Rightarrow> hits \<Rightarrow> hits" where
  "push_hit p lbl acc = (fst acc @ [p], snd acc @ [lbl])"

function (sequential) search_recursive :: "string \<Rightarrow> json \<Rightarrow> string list \<Rightarrow> hits \<Rightarrow> hits"
  and search_members :: "string \<Rightarrow> (string \<times> json) list \<Rightarrow> string list \<Rightarrow> hits \<Rightarrow> hits"
  and search_elements :: "string \<Rightarrow> nat \<Rightarrow> json list \<Rightarrow> string list \<Rightarrow> hits \<Rightarrow> hits"
where
  "search_recursive query node p acc =
     (case node of
        JObject kvs \<Rightarrow> search_members query kvs p acc
      | JArray xs \<Rightarrow> search_elements query 0 xs p acc
      | _ \<Rightarrow> acc)"
| "search_members query [] p acc = acc"
| "search_members query ((k, val) # kvs) p acc =
     (let current_path = p @ [k];
          acc1 = (if found_in query k
                  then push_hit current_path (key_label k current_path) acc else acc);
          acc2 = (case val of
                    JString str \<Rightarrow>
                      (if found_in query str
                       then push_hit current_path (val_label str current_path) acc1 else acc1)
                  | _ \<Rightarrow> acc1)
      in search_members query kvs p (search_recursive query val current_path acc2))"
| "search_elements query i [] p acc = acc"
| "search_elements query i (val # vals) p acc =
     (let current_path = p @ [to_string i];
          acc1 = (case val of
                    JString str \<Rightarrow>
                      (if found_in query str
                       then push_hit current_path (val_label str current_path) acc else acc)
                  | _ \<Rightarrow> acc)
      in search_elements query (Suc i) vals p (search_recursive query val current_path acc1))"
  by pat_completeness auto
termination
  by (relation "measure (\<lambda>x. case x of
         Inl (q, node, p, acc) \<Rightarrow> size node
       | Inr (Inl (q, kvs, p, acc)) \<Rightarrow> size_list (size_prod (\<lambda>k. 0) size) kvs
       | Inr (Inr (q, i, xs, p, acc)) \<Rightarrow> size_list size xs)") auto

definition OnSearchSubmit :: "nat \<Rightarrow> JsonEditor \<Rightarrow> JsonEditor" where
  "OnSearchSubmit cap s =
     (if search_query s = [] then s
      else
        (let s1 = s\<lparr>search_results := [], search_result_labels := [],
                    current_search_result_index := 0\<rparr>;
             r = (if search_from_root s1 then (input_json s1, [])
                  else GetNode cap (input_json s1) (current_path s1));
             start = (if search_from_root s1 then [] else current_path s1);
             found = search_recursive (search_query s1) (deref r) start ([], [])
         in if fst found = []
            then s1\<lparr>input_json := fst r, search_results := fst found,
                    search_result_labels := snd found @ [''No results found.'']\<rparr>
            else s1\<lparr>input_json := fst r, search_results := fst found,
                    search_result_labels := snd found\<rparr>))"

section \<open>Start-up and example documents\<close>

text \<open>
  The constructor: every field the model keeps starts empty or at zero, the search starts
  from the root, and the listing and the editor pane are filled once. The constructor
  leaves \<^verbatim>\<open>modal_state_\<close> without an initialiser; the editor is taken to start in the
  main view, state 0.
\<close>

definition new_JsonEditor :: "nat \<Rightarrow> json \<Rightarrow> JsonEditor" where
  "new_JsonEditor cap data =
     UpdateEditorPane cap (UpdateTreeEntries cap
       \<lparr>input_json = data,
        history_manager = \<lparr>undo_stack = [], redo_stack = []\<rparr>,
        selected_tree_item_index = 0, selected_editor_tab_index = 0,
        current_path = [], entries = [], menu_entries = [],
        editor_hint = [], modal_state = 0,
        new_key = [], new_value = [], rename_key = [],
        search_query = [], search_from_root = True,
        search_results = [], current_search_result_index = 0,
        search_result_labels = []\<rparr>)"

text \<open>
  \<^verbatim>\<open>{"x": {"name": "apple"}, "list": ["banana", "x"]}\<close>
\<close>

definition search_example :: json where
  "search_example =
     JObject [(''x'', JObject [(''name'', JString ''apple'')]),
              (''list'', JArray [JString ''banana'', JString ''x''])]"


definition scalar_example :: json where
  "scalar_example = JObject [(''a'', JNumberUnsigned 1)]"

definition two_keys_example :: json where
  "two_keys_example = JObject [(''a'', JNumberUnsigned 1), (''b'', JNumberUnsigned 2)]"

text \<open>
  Two editors opened on \<^verbatim>\<open>{"a": 1, "b": 2}\<close> with the first entry, \<^verbatim>\<open>a\<close>, selected
  and the rename input filled in: with the other key \<^verbatim>\<open>b\<close>, and with \<^verbatim>\<open>a\<close> itself.
\<close>

definition rename_collision_example :: "nat \<Rightarrow> JsonEditor" where
  "rename_collision_example cap = (new_JsonEditor cap two_keys_example)\<lparr>rename_key := ''b''\<rparr>"

definition rename_same_example :: "nat \<Rightarrow> JsonEditor" where
  "rename_same_example cap = (new_JsonEditor cap two_keys_example)\<lparr>rename_key := ''a''\<rparr>"

text \<open>
  A member's name may be the empty string. An editor opened on \<^verbatim>\<open>{"": 1}\<close> with its one
  entry selected and the rename input left empty.
\<close>

definition empty_key_example :: json where
  "empty_key_example = JObject [([], JNumberUnsigned 1)]"

definition rename_empty_example :: "nat \<Rightarrow> JsonEditor" where
  "rename_empty_example cap = (new_JsonEditor cap empty_key_example)\<lparr>rename_key := []\<rparr>"

text \<open>
  Events are handled one after the other; the next handler runs on the editor the previous
  one left, unless an exception has ended the loop.
\<close>

definition and_then ::
  "exn \<times> JsonEditor + JsonEditor \<Rightarrow> (JsonEditor \<Rightarrow> exn \<times> JsonEditor + JsonEditor)
   \<Rightarrow> exn \<times> JsonEditor + JsonEditor" where
  "and_then r handler = (case r of Inl e \<Rightarrow> Inl e | Inr s \<Rightarrow> handler s)"

text \<open>
  What a run of handlers leaves behind: the editor at its end, and whether it ended without
  an exception.
\<close>

definition editor_of :: "exn \<times> JsonEditor + JsonEditor \<Rightarrow> JsonEditor" where
  "editor_of r = (case r of Inl (e, s) \<Rightarrow> s | Inr s \<Rightarrow> s)"

definition returned :: "exn \<times> JsonEditor + JsonEditor \<Rightarrow> bool" where
  "returned r = (case r of Inl e \<Rightarrow> False | Inr s \<Rightarrow> True)"

text \<open>
  Adding a key to an object does not read a value literal, so any parser serves there;
  this one rejects every text.
\<close>

definition no_parse :: "string \<Rightarrow> json option" where
  "no_parse txt = None"

text \<open>
  Sessions on the example documents, each from a freshly opened editor at the root with
  the first entry selected:
  \<^item> on \<^verbatim>\<open>{"a": 1}\<close>, key \<^verbatim>\<open>a\<close> is typed into the add modal and submitted;
  \<^item> on \<^verbatim>\<open>{"a": 1, "b": 2}\<close>, the selected entry \<^verbatim>\<open>a\<close> is deleted;
  \<^item> on \<^verbatim>\<open>{"a": 1, "b": 2}\<close>, key \<^verbatim>\<open>a\<close> is typed into the add modal and submitted;
  \<^item> on \<^verbatim>\<open>{"a": 1, "b": 2}\<close>, the new key \<^verbatim>\<open>k\<close> is typed into the add modal and
    submitted.
\<close>

definition add_existing_to_one :: "nat \<Rightarrow> exn \<times> JsonEditor + JsonEditor" where
  "add_existing_to_one cap =
     OnAddSubmit cap no_parse ((new_JsonEditor cap scalar_example)\<lparr>new_key := ''a''\<rparr>)"

definition delete_first_of_two :: "nat \<Rightarrow> exn \<times> JsonEditor + JsonEditor" where
  "delete_first_of_two cap = Inr (OnDeleteSubmit cap (new_JsonEditor cap two_keys_example))"

definition add_existing_to_two :: "nat \<Rightarrow> exn \<times> JsonEditor + JsonEditor" where
  "add_existing_to_two cap =
     OnAddSubmit cap no_parse ((new_JsonEditor cap two_keys_example)\<lparr>new_key := ''a''\<rparr>)"

definition add_new_to_two :: "nat \<Rightarrow> exn \<times> JsonEditor + JsonEditor" where
  "add_new_to_two cap =
     OnAddSubmit cap no_parse ((new_JsonEditor cap two_keys_example)\<lparr>new_key := ''k''\<rparr>)"

text \<open>
  A value literal for the editor pane: the text \<^verbatim>\<open>[1]\<close>, which \<^verbatim>\<open>json::parse\<close> reads as
  the array with the one element 1. The session below hands the parser no other text.
\<close>

definition parse_array_literal :: "string \<Rightarrow> json option" where
  "parse_array_literal txt =
     (if txt = ''[1]'' then Some (JArray [JNumberUnsigned 1]) else None)"

text \<open>
  A session with an edit after an Undo: on \<^verbatim>\<open>{"a": 1, "b": 2}\<close> the selected entry
  \<^verbatim>\<open>a\<close> is deleted and the deletion undone, which selects \<^verbatim>\<open>a\<close> again; then
  \<^verbatim>\<open>[1]\<close> is typed into the editor pane and committed with Enter.
\<close>

definition delete_then_undo :: "nat \<Rightarrow> exn \<times> JsonEditor + JsonEditor" where
  "delete_then_undo cap = and_then (delete_first_of_two cap) (PerformUndo cap)"

definition edit_after_undo ::
  "nat \<Rightarrow> (json \<Rightarrow> json \<Rightarrow> bool) \<Rightarrow> exn \<times> JsonEditor + JsonEditor" where
  "edit_after_undo cap differs =
     and_then (delete_then_undo cap) (OnEditorEnter cap parse_array_literal differs ''[1]'')"

section \<open>Properties of path resolution\<close>

lemma walk_leaf:
  "\<not> is_object node \<Longrightarrow> \<not> is_array node \<Longrightarrow> walk cap node p = (node, Some [])"
  by (induction p) (cases node; simp add: is_object_def is_array_def)+

lemma map_of_update_same: "map_of (AList.update k v kvs) k = Some v"
  by (simp add: update_conv')

lemma fill_to_length: "i < length (fill_to i xs)"
  by (simp add: fill_to_def)

lemma fill_to_beyond:
  "length xs \<le> i \<Longrightarrow> fill_to i xs ! i = JNull"
  by (simp add: fill_to_def nth_append)

lemma fill_to_within: "i < length xs \<Longrightarrow> fill_to i xs = xs"
  by (simp add: fill_to_def)


lemma replace_at_same: "node_at node pos = Some n \<Longrightarrow> replace_at node pos n = node"
proof (induction node pos n rule: replace_at.induct)
  case (2 kvs k pos n)
  then show ?case by (auto simp: update_triv split: option.splits)
qed (auto split: if_splits)

lemma node_at_replace_at:
  "node_at node pos = Some n \<Longrightarrow> node_at (replace_at node pos n') pos = Some n'"
proof (induction node pos n' rule: replace_at.induct)
  case (2 kvs k pos n)
  then show ?case by (auto simp: map_of_update_same split: option.splits)
qed (auto split: if_splits)


lemma walk_thrown_unchanged: "walk cap node p = (node', None) \<Longrightarrow> node' = node"
proof (induction p arbitrary: node node')
  case Nil
  then show ?case by simp
next
  case (Cons seg rest)
  show ?case
  proof (cases node)
    case (JObject kvs)
    obtain child q where w: "walk cap (member_or_null kvs seg) rest = (child, q)"
      by (cases "walk cap (member_or_null kvs seg) rest")
    with Cons.prems JObject have q: "q = None" "node' = JObject (AList.update seg child kvs)"
      by auto
    with Cons.IH w have c: "child = member_or_null kvs seg" by blast
    show ?thesis
    proof (cases "map_of kvs seg")
      case None
      then have "walk cap (member_or_null kvs seg) rest = (JNull, Some [])"
        by (simp add: member_or_null_def walk_leaf is_object_def is_array_def)
      with w q show ?thesis by simp
    next
      case (Some v)
      with c q JObject show ?thesis by (simp add: member_or_null_def update_triv)
    qed
  next
    case (JArray xs)
    show ?thesis
    proof (cases "stoul seg")
      case (Inl e)
      with Cons.prems JArray show ?thesis by simp
    next
      case (Inr i)
      show ?thesis
      proof (cases "can_hold cap i xs")
        case False
        with Cons.prems JArray Inr show ?thesis by auto
      next
        case True
        then have hold: "can_hold cap i xs" .
        obtain child q where w: "walk cap (fill_to i xs ! i) rest = (child, q)"
          by (cases "walk cap (fill_to i xs ! i) rest")
        with Cons.prems JArray Inr hold have q: "q = None" "node' = JArray ((fill_to i xs)[i := child])"
          by auto
        with Cons.IH w have c: "child = fill_to i xs ! i" by blast
        show ?thesis
        proof (cases "i < length xs")
          case True
          with c q JArray show ?thesis by (simp add: fill_to_within)
        next
          case False
          then have "walk cap (fill_to i xs ! i) rest = (JNull, Some [])"
            by (simp add: fill_to_beyond walk_leaf is_object_def is_array_def)
          with w q show ?thesis by simp
        qed
      qed
    qed
  qed (use Cons in \<open>simp_all\<close>)
qed

lemma walk_position_exists:
  "walk cap node p = (node', Some pos) \<Longrightarrow> node_at node' pos \<noteq> None"
proof (induction p arbitrary: node node' pos)
  case Nil
  then show ?case by simp
next
  case (Cons seg rest)
  show ?case
  proof (cases node)
    case (JObject kvs)
    with Cons show ?thesis
      by (auto simp: map_of_update_same split: prod.splits)
  next
    case (JArray xs)
    with Cons show ?thesis
      by (auto simp: fill_to_length split: prod.splits sum.splits if_splits)
  qed (use Cons in \<open>simp_all\<close>)
qed

lemma at_node_replace:
  "node_at d pos = Some n \<Longrightarrow>
   at_node d pos f = (case f n of Inl e \<Rightarrow> Inl e | Inr n' \<Rightarrow> Inr (replace_at d pos n'))"
proof (induction d pos f rule: at_node.induct)
  case (2 kvs k pos f)
  then show ?case by (auto split: option.splits sum.splits)
next
  case (3 xs i pos f)
  then show ?case by (auto split: if_splits sum.splits)
qed (auto split: sum.splits)

lemma walk_nonnull_unchanged:
  "walk cap node p = (node', Some pos) \<Longrightarrow> node_at node' pos = Some n \<Longrightarrow> n \<noteq> JNull
   \<Longrightarrow> node' = node"
proof (induction p arbitrary: node node' pos)
  case Nil
  then show ?case by simp
next
  case (Cons seg rest)
  show ?case
  proof (cases node)
    case (JObject kvs)
    obtain child q where w: "walk cap (member_or_null kvs seg) rest = (child, q)"
      by (cases "walk cap (member_or_null kvs seg) rest")
    with Cons.prems JObject obtain pos' where q: "q = Some pos'" "pos = Member seg # pos'"
      "node' = JObject (AList.update seg child kvs)"
      by (cases q) auto
    with Cons.prems have n: "node_at child pos' = Some n"
      by (simp add: map_of_update_same)
    with Cons.IH w q Cons.prems have c: "child = member_or_null kvs seg" by blast
    show ?thesis
    proof (cases "map_of kvs seg")
      case None
      then have "walk cap (member_or_null kvs seg) rest = (JNull, Some [])"
        by (simp add: member_or_null_def walk_leaf is_object_def is_array_def)
      with w q n Cons.prems show ?thesis by simp
    next
      case (Some v)
      with c q JObject show ?thesis by (simp add: member_or_null_def update_triv)
    qed
  next
    case (JArray xs)
    show ?thesis
    proof (cases "stoul seg")
      case (Inl e)
      with Cons.prems JArray show ?thesis by simp
    next
      case (Inr i)
      show ?thesis
      proof (cases "can_hold cap i xs")
        case False
        with Cons.prems JArray Inr show ?thesis by auto
      next
        case True
        then have hold: "can_hold cap i xs" .
        obtain child q where w: "walk cap (fill_to i xs ! i) rest = (child, q)"
          by (cases "walk cap (fill_to i xs ! i) rest")
        with Cons.prems JArray Inr hold obtain pos' where q: "q = Some pos'" "pos = Element i # pos'"
          "node' = JArray ((fill_to i xs)[i := child])"
          by (cases q) auto
        with Cons.prems have n: "node_at child pos' = Some n"
          by (simp add: fill_to_length)
        with Cons.IH w q Cons.prems have c: "child = fill_to i xs ! i" by blast
        show ?thesis
        proof (cases "i < length xs")
          case True
          with c q JArray show ?thesis by (simp add: fill_to_within)
        next
          case False
          then have "walk cap (fill_to i xs ! i) rest = (JNull, Some [])"
            by (simp add: fill_to_beyond walk_leaf is_object_def is_array_def)
          with w q n Cons.prems show ?thesis by simp
        qed
      qed
    qed
  qed (use Cons in \<open>simp_all\<close>)
qed

lemma GetNode_nonnull_unchanged:
  assumes "GetNode cap doc p = (doc', pos)" "node_at doc' pos = Some n" "n \<noteq> JNull"
  shows "doc' = doc"
proof -
  obtain d r where w: "walk cap doc p = (d, r)" by (cases "walk cap doc p")
  show ?thesis
  proof (cases r)
    case None
    with w assms(1) have "d = doc'" by (simp add: GetNode_def)
    with w None show ?thesis using walk_thrown_unchanged by blast
  next
    case (Some pos')
    with w assms(1) have "d = doc'" "pos' = pos" by (simp_all add: GetNode_def)
    with w Some assms show ?thesis using walk_nonnull_unchanged by blast
  qed
qed

lemma walk_again: "walk cap node p = (node', r) \<Longrightarrow> walk cap node' p = (node', r)"
proof (induction p arbitrary: node node' r)
  case Nil
  then show ?case by simp
next
  case (Cons seg rest)
  show ?case
  proof (cases node)
    case (JObject kvs)
    obtain child q where w: "walk cap (member_or_null kvs seg) rest = (child, q)"
      by (cases "walk cap (member_or_null kvs seg) rest")
    with Cons.prems JObject have q: "r = map_option (Cons (Member seg)) q"
      "node' = JObject (AList.update seg child kvs)"
      by auto
    from Cons.IH w have "walk cap child rest = (child, q)" by blast
    with q show ?thesis
      by (simp add: member_or_null_def map_of_update_same)
  next
    case (JArray xs)
    show ?thesis
    proof (cases "stoul seg")
      case (Inl e)
      with Cons.prems JArray show ?thesis by auto
    next
      case (Inr i)
      show ?thesis
      proof (cases "can_hold cap i xs")
        case False
        with Cons.prems JArray Inr show ?thesis by auto
      next
        case True
        then have hold: "can_hold cap i xs" .
        obtain child q where w: "walk cap (fill_to i xs ! i) rest = (child, q)"
          by (cases "walk cap (fill_to i xs ! i) rest")
        with Cons.prems JArray Inr hold have q: "r = map_option (Cons (Element i)) q"
          "node' = JArray ((fill_to i xs)[i := child])"
          by auto
        from Cons.IH w have "walk cap child rest = (child, q)" by blast
        moreover have "fill_to i ((fill_to i xs)[i := child]) = (fill_to i xs)[i := child]"
          by (simp add: fill_to_within fill_to_length)
        moreover have "can_hold cap i ((fill_to i xs)[i := child])"
          by (simp add: can_hold_def fill_to_length)
        ultimately show ?thesis using q Inr
          by (simp add: fill_to_length)
      qed
    qed
  qed (use Cons.prems in \<open>auto simp: walk_leaf is_object_def is_array_def\<close>)
qed

lemma GetNode_again: "GetNode cap doc p = (doc', pos) \<Longrightarrow> GetNode cap doc' p = (doc', pos)"
proof -
  assume a: "GetNode cap doc p = (doc', pos)"
  obtain d r where w: "walk cap doc p = (d, r)" by (cases "walk cap doc p")
  with a have "d = doc'" by (cases r) (simp_all add: GetNode_def)
  with w have "walk cap doc' p = (doc', r)" using walk_again by blast
  with a w \<open>d = doc'\<close> show ?thesis by (cases r) (simp_all add: GetNode_def)
qed

lemma GetNode_position_exists: "GetNode cap doc p = (doc', pos) \<Longrightarrow> node_at doc' pos \<noteq> None"
proof -
  assume a: "GetNode cap doc p = (doc', pos)"
  obtain d r where w: "walk cap doc p = (d, r)" by (cases "walk cap doc p")
  show ?thesis
  proof (cases r)
    case None
    with w a show ?thesis by (simp add: GetNode_def)
  next
    case (Some pos')
    with w a have "d = doc'" "pos' = pos" by (simp_all add: GetNode_def)
    with w Some show ?thesis using walk_position_exists by blast
  qed
qed

lemma walk_keeps_leaf:
  assumes "walk cap node p1 = (node', Some pos)" "node_at node' pos = Some n"
    "\<not> is_object n" "\<not> is_array n"
  shows "walk cap node (p1 @ p2) = (node', Some pos)"
  using assms
proof (induction p1 arbitrary: node node' pos)
  case Nil
  then show ?case by (simp add: walk_leaf)
next
  case (Cons seg rest)
  show ?case
  proof (cases node)
    case (JObject kvs)
    obtain child r where w: "walk cap (member_or_null kvs seg) rest = (child, r)"
      by (cases "walk cap (member_or_null kvs seg) rest")
    with Cons.prems JObject obtain pos' where r: "r = Some pos'" "pos = Member seg # pos'"
      "node' = JObject (AList.update seg child kvs)"
      by (cases r) auto
    with Cons.prems have "node_at child pos' = Some n"
      by (simp add: map_of_update_same)
    with Cons.IH w r Cons.prems have "walk cap (member_or_null kvs seg) (rest @ p2) = (child, Some pos')"
      by blast
    with JObject r show ?thesis by simp
  next
    case (JArray xs)
    show ?thesis
    proof (cases "stoul seg")
      case (Inl e)
      with Cons.prems JArray show ?thesis by simp
    next
      case (Inr i)
      show ?thesis
      proof (cases "can_hold cap i xs")
        case False
        with Cons.prems JArray Inr show ?thesis by auto
      next
        case True
        then have hold: "can_hold cap i xs" .
        obtain child r where w: "walk cap (fill_to i xs ! i) rest = (child, r)"
          by (cases "walk cap (fill_to i xs ! i) rest")
        with Cons.prems JArray Inr hold obtain pos' where r: "r = Some pos'" "pos = Element i # pos'"
          "node' = JArray ((fill_to i xs)[i := child])"
          by (cases r) auto
        with Cons.prems have "node_at child pos' = Some n"
          by (simp add: fill_to_length)
        with Cons.IH w r Cons.prems have "walk cap (fill_to i xs ! i) (rest @ p2) = (child, Some pos')"
          by blast
        with JArray Inr hold r show ?thesis by simp
      qed
    qed
  qed (use Cons in \<open>simp_all\<close>)
qed

lemma walk_thrown_container:
  "walk cap node p = (node', None) \<Longrightarrow> is_object node' \<or> is_array node'"
  by (cases p; cases node)
     (auto simp: is_object_def is_array_def walk_leaf split: prod.splits sum.splits if_splits)

text \<open>
  C10. When the walk stands on a node that is neither an object nor an array, the segments
  that remain are skipped: \<^verbatim>\<open>GetNode\<close> returns that node, not the root. Resolving
  \<^verbatim>\<open>["a", "b"]\<close> on \<^verbatim>\<open>{"a": 1}\<close> yields the value 1.
\<close>

theorem GetNode_stays_at_leaf:
  assumes "GetNode cap root p1 = (root', pos)" "node_at root' pos = Some n"
    "\<not> is_object n" "\<not> is_array n"
  shows "GetNode cap root (p1 @ p2) = (root', pos) \<and> deref (GetNode cap root (p1 @ p2)) = n"
proof -
  obtain d r where w: "walk cap root p1 = (d, r)" by (cases "walk cap root p1")
  show ?thesis
  proof (cases r)
    case None
    with w assms(1) have "d = root'" "pos = []" by (simp_all add: GetNode_def)
    with assms(2) have "n = root'" by simp
    with walk_thrown_container w None \<open>d = root'\<close> assms(3,4) show ?thesis by blast
  next
    case (Some pos')
    with w assms(1) have "d = root'" "pos' = pos" by (simp_all add: GetNode_def)
    with walk_keeps_leaf[of cap root p1 root' pos n p2] w Some assms
    show ?thesis by (simp add: GetNode_def deref_def)
  qed
qed

theorem GetNode_stays_at_leaf_witness:
  "GetNode vector_max_size scalar_example [''a''] = (scalar_example, [Member ''a''])
   \<and> node_at scalar_example [Member ''a''] = Some (JNumberUnsigned 1)
   \<and> \<not> is_object (JNumberUnsigned 1) \<and> \<not> is_array (JNumberUnsigned 1)
   \<and> GetNode vector_max_size scalar_example [''a'', ''b''] = (scalar_example, [Member ''a''])
   \<and> deref (GetNode vector_max_size scalar_example [''a'', ''b'']) = JNumberUnsigned 1"
proof -
  have a: "GetNode vector_max_size scalar_example [''a''] = (scalar_example, [Member ''a''])"
    by (simp add: GetNode_def scalar_example_def member_or_null_def)
  have b: "node_at scalar_example [Member ''a''] = Some (JNumberUnsigned 1)"
    by (simp add: scalar_example_def)
  have c: "\<not> is_object (JNumberUnsigned 1)" "\<not> is_array (JNumberUnsigned 1)"
    by (simp_all add: is_object_def is_array_def)
  note d = GetNode_stays_at_leaf[OF a b c, of "[''b'']", unfolded append.simps]
  from a b c d show ?thesis by blast
qed












section \<open>Properties of the history\<close>

lemma pop_all_empty: "pop_all stack = []"
  by (induction stack) simp_all

text \<open>
  \<^verbatim>\<open>Push\<close> puts the action on top of the undo stack and leaves the redo stack empty,
  whatever it held. After a push \<^verbatim>\<open>CanRedo\<close> is false, \<^verbatim>\<open>Redo\<close> returns
  \<^verbatim>\<open>nullptr\<close> and changes neither the stacks nor the document, and \<^verbatim>\<open>PerformRedo\<close>
  leaves the editor as it is.
\<close>

lemma push_clears_redo:
  "undo_stack (Push a h) = a # undo_stack h
   \<and> redo_stack (Push a h) = []
   \<and> \<not> CanRedo (Push a h)
   \<and> Redo cap (Push a h) doc = Inr (None, Push a h, doc)
   \<and> PerformRedo cap (s\<lparr>history_manager := Push a h\<rparr>) = Inr (s\<lparr>history_manager := Push a h\<rparr>)"
  by (simp add: Push_def CanRedo_def Redo_def PerformRedo_def pop_all_empty)

section \<open>Properties of the search\<close>

text \<open>
  C7. On \<^verbatim>\<open>{"x": {"name": "apple"}, "list": ["banana", "x"]}\<close>, searching from the root
  for \<^verbatim>\<open>an\<close> finds exactly the value \<^verbatim>\<open>banana\<close> at path \<^verbatim>\<open>["list", "0"]\<close>;
  searching for \<^verbatim>\<open>x\<close> finds the key at path \<^verbatim>\<open>["x"]\<close> and then the value \<^verbatim>\<open>x\<close>
  at path \<^verbatim>\<open>["list", "1"]\<close>, in the order of a depth-first walk of the document.
\<close>

theorem search_example_results:
  "search_results (OnSearchSubmit cap ((new_JsonEditor cap search_example)\<lparr>search_query := ''an''\<rparr>))
     = [[''list'', ''0'']]
   \<and> search_result_labels (OnSearchSubmit cap ((new_JsonEditor cap search_example)\<lparr>search_query := ''an''\<rparr>))
     = [''Val: banana (Path: list > 0)'']
   \<and> search_results (OnSearchSubmit cap ((new_JsonEditor cap search_example)\<lparr>search_query := ''x''\<rparr>))
     = [[''x''], [''list'', ''1'']]
   \<and> search_result_labels (OnSearchSubmit cap ((new_JsonEditor cap search_example)\<lparr>search_query := ''x''\<rparr>))
     = [''Key: x (Path: x)'', ''Val: x (Path: list > 1)'']"
  by code_simp

section \<open>Properties of the document mutations\<close>


lemma update_absent: "map_of kvs k = None \<Longrightarrow> AList.update k v kvs = kvs @ [(k, v)]"
  by (induction kvs) (auto split: if_splits)


lemma UpdateJsonValue_absent:
  "map_of kvs k = None \<Longrightarrow>
   UpdateJsonValue cap parse k txt (JObject kvs)
     = JObject (kvs @ [(k, parse_or_string parse (CleanStringForJson txt))])"
  by (simp add: UpdateJsonValue_def update_absent)




section \<open>Properties of renaming\<close>

lemma GetCurrentSelectionKey_input_json:
  "GetCurrentSelectionKey (s\<lparr>input_json := d\<rparr>) = GetCurrentSelectionKey s"
  by (simp add: GetCurrentSelectionKey_def no_selection_def)

text \<open>
  C8. When the current node is an object and the cleaned rename input is non-empty, differs
  from the selected key and is already a key of the object, \<^verbatim>\<open>OnRenameSubmit\<close> stops
  before any mutation: the document and both history stacks are as before, and only the
  hint is set. On \<^verbatim>\<open>{"a": 1, "b": 2}\<close>, renaming \<^verbatim>\<open>a\<close> to \<^verbatim>\<open>b\<close> leaves the
  document unchanged.
\<close>

theorem rename_collision_rejected:
  assumes "GetNode cap (input_json s) (current_path s) = (doc', pos)"
    and "node_at doc' pos = Some (JObject kvs)"
    and "CleanStringForJson (rename_key s) \<noteq> []"
    and "CleanStringForJson (rename_key s) \<noteq> GetCurrentSelectionKey s"
    and "contains_key kvs (CleanStringForJson (rename_key s))"
  shows "OnRenameSubmit cap s = Inr (s\<lparr>editor_hint := ''Error: This key is already in use.''\<rparr>)"
proof -
  from assms(1,2) have d: "doc' = input_json s"
    using GetNode_nonnull_unchanged by blast
  have r: "deref (input_json s, pos) = JObject kvs"
    using assms(2) d by (simp add: deref_def)
  show ?thesis
    using assms(3,4,5) r
    by (simp add: OnRenameSubmit_def assms(1) d Let_def GetCurrentSelectionKey_input_json)
qed

theorem rename_collision_rejected_witness:
  "GetNode vector_max_size (input_json (rename_collision_example vector_max_size)) (current_path (rename_collision_example vector_max_size))
     = (two_keys_example, [])
   \<and> node_at two_keys_example []
       = Some (JObject [(''a'', JNumberUnsigned 1), (''b'', JNumberUnsigned 2)])
   \<and> CleanStringForJson (rename_key (rename_collision_example vector_max_size)) = ''b''
   \<and> GetCurrentSelectionKey (rename_collision_example vector_max_size) = ''a''
   \<and> contains_key [(''a'', JNumberUnsigned 1), (''b'', JNumberUnsigned 2)] ''b''
   \<and> OnRenameSubmit vector_max_size (rename_collision_example vector_max_size)
       = Inr ((rename_collision_example vector_max_size)\<lparr>editor_hint := ''Error: This key is already in use.''\<rparr>)
   \<and> input_json ((rename_collision_example vector_max_size)\<lparr>editor_hint := ''Error: This key is already in use.''\<rparr>)
       = two_keys_example
   \<and> history_manager ((rename_collision_example vector_max_size)\<lparr>editor_hint := ''Error: This key is already in use.''\<rparr>)
       = \<lparr>undo_stack = [], redo_stack = []\<rparr>"
proof -
  have a0: "GetNode cap (input_json (rename_collision_example cap)) (current_path (rename_collision_example cap))
             = (two_keys_example, [])" for cap
    by code_simp
  note a = a0[of vector_max_size]
  have b: "node_at two_keys_example []
             = Some (JObject [(''a'', JNumberUnsigned 1), (''b'', JNumberUnsigned 2)])"
    by (simp add: two_keys_example_def)
  have c0: "CleanStringForJson (rename_key (rename_collision_example cap)) = ''b''" for cap
    by code_simp
  note c = c0[of vector_max_size]
  have d0: "GetCurrentSelectionKey (rename_collision_example cap) = ''a''" for cap
    by code_simp
  note d = d0[of vector_max_size]
  have e: "contains_key [(''a'', JNumberUnsigned 1), (''b'', JNumberUnsigned 2)] ''b''"
    by (simp add: contains_key_def)
  have f0: "input_json ((rename_collision_example cap)\<lparr>editor_hint := ''Error: This key is already in use.''\<rparr>)
             = two_keys_example" for cap
    by code_simp
  note f = f0[of vector_max_size]
  have g0: "history_manager ((rename_collision_example cap)\<lparr>editor_hint := ''Error: This key is already in use.''\<rparr>)
             = \<lparr>undo_stack = [], redo_stack = []\<rparr>" for cap
    by code_simp
  note g = g0[of vector_max_size]
  have h: "OnRenameSubmit vector_max_size (rename_collision_example vector_max_size)
             = Inr ((rename_collision_example vector_max_size)\<lparr>editor_hint := ''Error: This key is already in use.''\<rparr>)"
    by (rule rename_collision_rejected[OF a b]) (simp add: c, simp add: c d, simp only: c e)
  from a b c d e f g h show ?thesis by blast
qed

lemma delete_appended: "AList.delete k (kvs @ [(k, v)]) = AList.delete k kvs"
  by (simp add: AList.delete_eq)

lemma rename_member_same:
  "rename_member k k (JObject kvs) = Inr (JObject (AList.delete k kvs))"
  by (simp add: Let_def delete_update_same delete_appended)

lemma walk_replaced:
  assumes "walk cap node p = (node', Some pos)" "node_at node' pos = Some n"
    "is_object n \<or> is_array n"
  shows "walk cap (replace_at node' pos n') p = (replace_at node' pos n', Some pos)"
  using assms
proof (induction p arbitrary: node node' pos)
  case Nil
  then show ?case by simp
next
  case (Cons seg rest)
  show ?case
  proof (cases node)
    case (JObject kvs)
    obtain child q where w: "walk cap (member_or_null kvs seg) rest = (child, q)"
      by (cases "walk cap (member_or_null kvs seg) rest")
    with Cons.prems JObject obtain pos' where q: "q = Some pos'" "pos = Member seg # pos'"
      "node' = JObject (AList.update seg child kvs)"
      by (cases q) auto
    with Cons.prems have "node_at child pos' = Some n"
      by (simp add: map_of_update_same)
    with Cons.IH w q Cons.prems
    have "walk cap (replace_at child pos' n') rest = (replace_at child pos' n', Some pos')"
      by blast
    with q show ?thesis
      by (simp add: map_of_update_same member_or_null_def)
  next
    case (JArray xs)
    show ?thesis
    proof (cases "stoul seg")
      case (Inl e)
      with Cons.prems JArray show ?thesis by simp
    next
      case (Inr i)
      show ?thesis
      proof (cases "can_hold cap i xs")
        case False
        with Cons.prems JArray Inr show ?thesis by auto
      next
        case True
        then have hold: "can_hold cap i xs" .
        obtain child q where w: "walk cap (fill_to i xs ! i) rest = (child, q)"
          by (cases "walk cap (fill_to i xs ! i) rest")
        with Cons.prems JArray Inr hold obtain pos' where q: "q = Some pos'" "pos = Element i # pos'"
          "node' = JArray ((fill_to i xs)[i := child])"
          by (cases q) auto
        with Cons.prems have "node_at child pos' = Some n"
          by (simp add: fill_to_length)
        with Cons.IH w q Cons.prems
        have "walk cap (replace_at child pos' n') rest = (replace_at child pos' n', Some pos')"
          by blast
        with q Inr show ?thesis
          by (simp add: fill_to_length fill_to_within can_hold_def)
      qed
    qed
  qed (use Cons.prems in \<open>auto simp: walk_leaf is_object_def is_array_def\<close>)
qed

lemma UpdateTreeEntries_fields:
  "current_path (UpdateTreeEntries cap s) = current_path s"
  "history_manager (UpdateTreeEntries cap s) = history_manager s"
  "selected_tree_item_index (UpdateTreeEntries cap s) = selected_tree_item_index s"
  "input_json (UpdateTreeEntries cap s) = fst (GetNode cap (input_json s) (current_path s))"
  by (simp_all add: UpdateTreeEntries_def Let_def)

lemma GetCurrentSelectedNode_object:
  assumes "GetNode cap (input_json s) (current_path s) = (input_json s, pos)"
    "node_at (input_json s) pos = Some (JObject kvs)"
  shows "fst (GetCurrentSelectedNode cap s) = input_json s"
  using assms by (simp add: GetCurrentSelectedNode_def Let_def deref_def)

lemma UpdateEditorPane_fields:
  "current_path (UpdateEditorPane cap s) = current_path s"
  "history_manager (UpdateEditorPane cap s) = history_manager s"
  "selected_tree_item_index (UpdateEditorPane cap s) = selected_tree_item_index s"
  "entries (UpdateEditorPane cap s) = entries s"
  "input_json (UpdateEditorPane cap s) = fst (GetCurrentSelectedNode cap s)"
  by (simp_all add: UpdateEditorPane_def split: prod.splits option.splits)

lemma RefreshTreeAndCloseModal_object:
  assumes "GetNode cap (input_json s) (current_path s) = (input_json s, pos)"
    "node_at (input_json s) pos = Some (JObject kvs)"
  shows "input_json (RefreshTreeAndCloseModal cap i s) = input_json s"
    and "history_manager (RefreshTreeAndCloseModal cap i s) = history_manager s"
    and "current_path (RefreshTreeAndCloseModal cap i s) = current_path s"
proof -
  let ?s1 = "UpdateTreeEntries cap s"
  let ?j = "if i < 0 \<or> int (length (entries ?s1)) \<le> i then 0 else i"
  let ?s1' = "?s1\<lparr>selected_tree_item_index := ?j\<rparr>"
  have a: "input_json ?s1' = input_json s" "current_path ?s1' = current_path s"
    using assms(1) by (simp_all add: UpdateTreeEntries_fields)
  have "fst (GetCurrentSelectedNode cap ?s1') = input_json ?s1'"
    by (rule GetCurrentSelectedNode_object[where pos = pos and kvs = kvs])
       (simp_all add: a assms)
  then have b: "input_json (UpdateEditorPane cap ?s1') = input_json s"
    by (simp add: UpdateEditorPane_fields a)
  show "input_json (RefreshTreeAndCloseModal cap i s) = input_json s"
    using b by (simp add: RefreshTreeAndCloseModal_def Let_def)
  show "history_manager (RefreshTreeAndCloseModal cap i s) = history_manager s"
    by (simp add: RefreshTreeAndCloseModal_def Let_def UpdateEditorPane_fields
        UpdateTreeEntries_fields)
  show "current_path (RefreshTreeAndCloseModal cap i s) = current_path s"
    by (simp add: RefreshTreeAndCloseModal_def Let_def UpdateEditorPane_fields
        UpdateTreeEntries_fields)
qed

text \<open>
  C9, as the code has it. When the current node is an object that holds the selected key
  \<^verbatim>\<open>k\<close>, the key is not the empty string, and the cleaned rename input is \<^verbatim>\<open>k\<close>
  itself, the duplicate test does not apply and \<^verbatim>\<open>OnRenameSubmit\<close> runs
  \<^verbatim>\<open>ExecuteRenameKey(path, k, k)\<close>: the key is erased from the object, its value is gone,
  and the action is recorded in the history.
\<close>

theorem rename_to_same_key_erases:
  assumes "walk cap (input_json s) (current_path s) = (doc', Some pos)"
    and "node_at doc' pos = Some (JObject kvs)"
    and "contains_key kvs k"
    and "GetCurrentSelectionKey s = k"
    and "CleanStringForJson (rename_key s) = k"
    and "k \<noteq> []"
  shows "\<exists>s'. OnRenameSubmit cap s = Inr s'
           \<and> input_json s' = replace_at (input_json s) pos (JObject (AList.delete k kvs))
           \<and> node_at (input_json s') pos = Some (JObject (AList.delete k kvs))
           \<and> \<not> contains_key (AList.delete k kvs) k
           \<and> history_manager s'
               = Push \<lparr>undo = RenameKey (current_path s) k k,
                       redo = RenameKey (current_path s) k k,
                       path = current_path s, focus_key = k\<rparr> (history_manager s)"
proof -
  let ?doc = "input_json s"
  let ?p = "current_path s"
  let ?nd = "replace_at ?doc pos (JObject (AList.delete k kvs))"
  let ?a = "\<lparr>undo = RenameKey ?p k k, redo = RenameKey ?p k k, path = ?p, focus_key = k\<rparr>"
  from assms(1,2) have d: "doc' = ?doc"
    using walk_nonnull_unchanged by blast
  have g: "GetNode cap ?doc ?p = (?doc, pos)"
    using assms(1) d by (simp add: GetNode_def)
  have n: "node_at ?doc pos = Some (JObject kvs)"
    using assms(2) d by simp
  have r: "deref (?doc, pos) = JObject kvs"
    using n by (simp add: deref_def)
  have e: "ExecuteRenameKey cap ?p k k ?doc = Inr ?nd"
    using n by (simp add: ExecuteRenameKey_def through_def g at_node_replace rename_member_same
        del: rename_member.simps)
  let ?s1 = "s\<lparr>input_json := ?nd, history_manager := Push ?a (history_manager s)\<rparr>"
  let ?s2 = "UpdateTreeEntries cap ?s1"
  let ?i = "GetIndexFromEntries ?s2 k"
  have w: "walk cap ?nd ?p = (?nd, Some pos)"
    using walk_replaced[of cap ?doc ?p ?doc pos "JObject kvs"] assms(1) d n
    by (simp add: is_object_def)
  then have g1: "GetNode cap ?nd ?p = (?nd, pos)"
    by (simp add: GetNode_def)
  have n1: "node_at ?nd pos = Some (JObject (AList.delete k kvs))"
    using n by (rule node_at_replace_at)
  have s2: "input_json ?s2 = ?nd" "current_path ?s2 = ?p"
    "history_manager ?s2 = Push ?a (history_manager s)"
    using g1 by (simp_all add: UpdateTreeEntries_fields)
  have o: "OnRenameSubmit cap s = Inr (RefreshTreeAndCloseModal cap ?i ?s2)"
    using assms(4,5,6) r e
    by (simp add: OnRenameSubmit_def g Let_def GetCurrentSelectionKey_input_json)
  have f: "input_json (RefreshTreeAndCloseModal cap ?i ?s2) = ?nd"
    "history_manager (RefreshTreeAndCloseModal cap ?i ?s2) = Push ?a (history_manager s)"
    using RefreshTreeAndCloseModal_object[of cap ?s2 pos "AList.delete k kvs" ?i] g1 n1 s2
    by simp_all
  have c: "\<not> contains_key (AList.delete k kvs) k"
    by (simp add: contains_key_def delete_conv')
  from o f n1 c show ?thesis by simp
qed

theorem rename_to_same_key_erases_witness:
  "walk vector_max_size (input_json (rename_same_example vector_max_size)) (current_path (rename_same_example vector_max_size))
     = (two_keys_example, Some [])
   \<and> node_at two_keys_example []
       = Some (JObject [(''a'', JNumberUnsigned 1), (''b'', JNumberUnsigned 2)])
   \<and> contains_key [(''a'', JNumberUnsigned 1), (''b'', JNumberUnsigned 2)] ''a''
   \<and> GetCurrentSelectionKey (rename_same_example vector_max_size) = ''a''
   \<and> CleanStringForJson (rename_key (rename_same_example vector_max_size)) = ''a''
   \<and> (\<exists>s'. OnRenameSubmit vector_max_size (rename_same_example vector_max_size) = Inr s'
          \<and> input_json s' = JObject [(''b'', JNumberUnsigned 2)])"
proof -
  have a0: "walk cap (input_json (rename_same_example cap)) (current_path (rename_same_example cap))
             = (two_keys_example, Some [])" for cap
    by code_simp
  note a = a0[of vector_max_size]
  have b: "node_at two_keys_example []
             = Some (JObject [(''a'', JNumberUnsigned 1), (''b'', JNumberUnsigned 2)])"
    by (simp add: two_keys_example_def)
  have c: "contains_key [(''a'', JNumberUnsigned 1), (''b'', JNumberUnsigned 2)] ''a''"
    by (simp add: contains_key_def)
  have d0: "GetCurrentSelectionKey (rename_same_example cap) = ''a''" for cap
    by code_simp
  note d = d0[of vector_max_size]
  have e0: "CleanStringForJson (rename_key (rename_same_example cap)) = ''a''" for cap
    by code_simp
  note e = e0[of vector_max_size]
  have f: "''a'' \<noteq> ([] :: string)" by simp
  have g: "replace_at (input_json (rename_same_example vector_max_size)) []
             (JObject (AList.delete ''a'' [(''a'', JNumberUnsigned 1), (''b'', JNumberUnsigned 2)]))
           = JObject [(''b'', JNumberUnsigned 2)]"
    by (simp add: AList.delete_eq)
  from rename_to_same_key_erases[OF a b c d e f]
  obtain s' where "OnRenameSubmit vector_max_size (rename_same_example vector_max_size) = Inr s'"
    "input_json s' = replace_at (input_json (rename_same_example vector_max_size)) []
             (JObject (AList.delete ''a'' [(''a'', JNumberUnsigned 1), (''b'', JNumberUnsigned 2)]))"
    by blast
  with g have "\<exists>s'. OnRenameSubmit vector_max_size (rename_same_example vector_max_size) = Inr s'
          \<and> input_json s' = JObject [(''b'', JNumberUnsigned 2)]"
    by simp
  with a b c d e show ?thesis by blast
qed

text \<open>
  C9 as stated fails for the empty key. On \<^verbatim>\<open>{"": 1}\<close> with the entry selected and the
  rename input empty, the new key equals the current key and the object holds it, yet
  \<^verbatim>\<open>OnRenameSubmit\<close> stops at its test for an empty key: it sets the hint, does not call
  \<^verbatim>\<open>ExecuteRenameKey\<close>, and leaves the document and the history as they are.
\<close>

theorem rename_empty_key_counterexample:
  "input_json (rename_empty_example vector_max_size) = empty_key_example
   \<and> current_path (rename_empty_example vector_max_size) = []
   \<and> contains_key [([], JNumberUnsigned 1)] []
   \<and> GetCurrentSelectionKey (rename_empty_example vector_max_size) = []
   \<and> CleanStringForJson (rename_key (rename_empty_example vector_max_size)) = []
   \<and> OnRenameSubmit vector_max_size (rename_empty_example vector_max_size)
       = Inr ((rename_empty_example vector_max_size)\<lparr>editor_hint := ''Error: Key cannot be empty.''\<rparr>)
   \<and> input_json ((rename_empty_example vector_max_size)\<lparr>editor_hint := ''Error: Key cannot be empty.''\<rparr>)
       = JObject [([], JNumberUnsigned 1)]
   \<and> history_manager ((rename_empty_example vector_max_size)\<lparr>editor_hint := ''Error: Key cannot be empty.''\<rparr>)
       = \<lparr>undo_stack = [], redo_stack = []\<rparr>"
proof -
  have "input_json (rename_empty_example cap) = empty_key_example
     \<and> current_path (rename_empty_example cap) = []
     \<and> contains_key [([], JNumberUnsigned 1)] []
     \<and> GetCurrentSelectionKey (rename_empty_example cap) = []
     \<and> CleanStringForJson (rename_key (rename_empty_example cap)) = []
     \<and> OnRenameSubmit cap (rename_empty_example cap)
         = Inr ((rename_empty_example cap)\<lparr>editor_hint := ''Error: Key cannot be empty.''\<rparr>)
     \<and> input_json ((rename_empty_example cap)\<lparr>editor_hint := ''Error: Key cannot be empty.''\<rparr>)
         = JObject [([], JNumberUnsigned 1)]
     \<and> history_manager ((rename_empty_example cap)\<lparr>editor_hint := ''Error: Key cannot be empty.''\<rparr>)
         = \<lparr>undo_stack = [], redo_stack = []\<rparr>" for cap
    by code_simp
  from this[of vector_max_size] show ?thesis .
qed

section \<open>Committed mutations and redo\<close>

lemma RefreshTreeAndCloseModal_history:
  "history_manager (RefreshTreeAndCloseModal cap i s) = history_manager s"
  by (simp add: RefreshTreeAndCloseModal_def Let_def UpdateEditorPane_fields
      UpdateTreeEntries_fields)

lemma OnAddSubmit_history:
  "OnAddSubmit cap parse s = Inr s' \<Longrightarrow>
   history_manager s' = history_manager s
   \<or> (\<exists>a. history_manager s' = Push a (history_manager s))"
  by (auto simp: OnAddSubmit_def Let_def RefreshTreeAndCloseModal_history UpdateTreeEntries_fields
      split: if_splits sum.splits prod.splits)

lemma OnRenameSubmit_history:
  "OnRenameSubmit cap s = Inr s' \<Longrightarrow>
   history_manager s' = history_manager s
   \<or> (\<exists>a. history_manager s' = Push a (history_manager s))"
  by (auto simp: OnRenameSubmit_def Let_def RefreshTreeAndCloseModal_history UpdateTreeEntries_fields
      split: if_splits sum.splits prod.splits json.splits)

lemma OnDeleteSubmit_history:
  "history_manager (OnDeleteSubmit cap s) = history_manager s
   \<or> (\<exists>a. history_manager (OnDeleteSubmit cap s) = Push a (history_manager s))"
  by (auto simp: OnDeleteSubmit_def Let_def RefreshTreeAndCloseModal_history
      split: if_splits sum.splits prod.splits json.splits)

text \<open>
  A handler that records the mutation it commits changes the history by one \<^verbatim>\<open>Push\<close>,
  and whatever was undone before it can then no longer be redone.
\<close>

lemma nothing_to_redo_after_push:
  "history_manager s' = Push a h \<Longrightarrow> \<not> CanRedo (history_manager s') \<and> PerformRedo cap s' = Inr s'"
  by (simp add: Push_def CanRedo_def PerformRedo_def pop_all_empty)

lemma commit_by_OnAddSubmit:
  assumes "OnAddSubmit cap parse s = Inr s'" "history_manager s' \<noteq> history_manager s"
  shows "\<not> CanRedo (history_manager s') \<and> PerformRedo cap s' = Inr s'"
  using OnAddSubmit_history[OF assms(1)] assms(2) nothing_to_redo_after_push by blast

lemma commit_by_OnRenameSubmit:
  assumes "OnRenameSubmit cap s = Inr s'" "history_manager s' \<noteq> history_manager s"
  shows "\<not> CanRedo (history_manager s') \<and> PerformRedo cap s' = Inr s'"
  using OnRenameSubmit_history[OF assms(1)] assms(2) nothing_to_redo_after_push by blast

lemma commit_by_OnDeleteSubmit:
  assumes "history_manager (OnDeleteSubmit cap s) \<noteq> history_manager s"
  shows "\<not> CanRedo (history_manager (OnDeleteSubmit cap s))
         \<and> PerformRedo cap (OnDeleteSubmit cap s) = Inr (OnDeleteSubmit cap s)"
  using OnDeleteSubmit_history[of cap s] assms nothing_to_redo_after_push by blast

lemma OnEditorEnter_history:
  "OnEditorEnter cap parse differs txt s = Inr s' \<Longrightarrow>
   history_manager s' = history_manager s
   \<or> (\<exists>a. history_manager s' = Push a (history_manager s))"
  by (auto simp: OnEditorEnter_def Let_def UpdateTreeEntries_fields
      split: if_splits sum.splits prod.splits option.splits)

lemma commit_by_OnEditorEnter:
  assumes "OnEditorEnter cap parse differs txt s = Inr s'"
    "history_manager s' \<noteq> history_manager s"
  shows "\<not> CanRedo (history_manager s') \<and> PerformRedo cap s' = Inr s'"
  using OnEditorEnter_history[OF assms(1)] assms(2) nothing_to_redo_after_push by blast

text \<open>
  The editor pane's handler records no action when the value it has stored is an array and
  the parent is an object whose member is not named by a number: it asks
  \<^verbatim>\<open>node_ptr->is_array()\<close> of the selected node, not of the parent, so
  \<^verbatim>\<open>std::stoul(key)\<close> throws on the member's name, \<^verbatim>\<open>new_node_ptr\<close> stays null and
  \<^verbatim>\<open>Push\<close> is skipped. The document has changed and the history has not.
\<close>

lemma OnEditorEnter_unrecorded:
  assumes "walk cap (input_json s) (current_path s) = (input_json s, Some pos)"
    and "node_at (input_json s) pos = Some (JObject kvs)"
    and "GetCurrentSelectionKey s = k" "\<not> no_selection s" "k \<noteq> ''..''"
    and "contains_key kvs k" "stoul k = Inl e"
    and "parse (CleanStringForJson txt) = Some (JArray xs)"
  shows "\<exists>s'. OnEditorEnter cap parse differs txt s = Inr s'
           \<and> input_json s' = replace_at (input_json s) pos (JObject (AList.update k (JArray xs) kvs))
           \<and> history_manager s' = history_manager s"
proof -
  let ?doc = "replace_at (input_json s) pos (JObject (AList.update k (JArray xs) kvs))"
  have g: "GetNode cap (input_json s) (current_path s) = (input_json s, pos)"
    using assms(1) by (simp add: GetNode_def)
  have "walk cap ?doc (current_path s) = (?doc, Some pos)"
    using assms(1,2) by (rule walk_replaced) (simp add: is_object_def)
  then have g': "GetNode cap ?doc (current_path s) = (?doc, pos)"
    by (simp add: GetNode_def)
  have k: "key (entries s ! nat (selected_tree_item_index s)) = k"
    using assms(3,4) by (simp add: GetCurrentSelectionKey_def)
  have r: "deref (input_json s, pos) = JObject kvs"
    using assms(2) by (simp add: deref_def)
  have sel: "GetCurrentSelectedNode cap s = (input_json s, k, Some (member_or_null kvs k))"
    using assms(4,5,6) k r by (simp add: GetCurrentSelectedNode_def g Let_def)
  have upd: "UpdateJsonValue cap parse k txt (JObject kvs) = JObject (AList.update k (JArray xs) kvs)"
    using assms(8) by (simp add: UpdateJsonValue_def parse_or_string_def)
  have arr: "is_array (pointee k (JObject (AList.update k (JArray xs) kvs)))"
    by (simp add: pointee_def member_or_null_def map_of_update_same is_array_def)
  have none: "subscript_index cap k (JObject (AList.update k (JArray xs) kvs)) = None"
    using assms(7) by (simp add: subscript_index_def)
  show ?thesis
    by (simp add: OnEditorEnter_def sel g g' r upd arr none Let_def UpdateTreeEntries_fields)
qed

text \<open>
  C6. \<^verbatim>\<open>Push\<close> empties the redo stack, but a committed edit does not always reach it. On
  \<^verbatim>\<open>{"a": 1, "b": 2}\<close>, the entry \<^verbatim>\<open>a\<close> is deleted and the deletion undone; the
  value of \<^verbatim>\<open>a\<close> is then edited to \<^verbatim>\<open>[1]\<close> and committed with Enter. The document
  takes the new value and the history is left as the undo made it: \<^verbatim>\<open>CanRedo\<close> is still
  true, and \<^verbatim>\<open>PerformRedo\<close> replays the deletion, which erases \<^verbatim>\<open>a\<close> together with
  the value just committed.
\<close>

theorem redo_survives_unrecorded_edit:
  "returned (edit_after_undo cap differs)
   \<and> input_json (editor_of (delete_then_undo cap))
       = JObject [(''b'', JNumberUnsigned 2), (''a'', JNumberUnsigned 1)]
   \<and> input_json (editor_of (edit_after_undo cap differs))
       = JObject [(''b'', JNumberUnsigned 2), (''a'', JArray [JNumberUnsigned 1])]
   \<and> history_manager (editor_of (edit_after_undo cap differs))
       = history_manager (editor_of (delete_then_undo cap))
   \<and> redo_stack (history_manager (editor_of (edit_after_undo cap differs)))
       = [\<lparr>undo = AddKey [] ''a'' (JNumberUnsigned 1), redo = RemoveKey [] ''a'',
           path = [], focus_key = ''a''\<rparr>]
   \<and> CanRedo (history_manager (editor_of (edit_after_undo cap differs)))
   \<and> returned (and_then (edit_after_undo cap differs) (PerformRedo cap))
   \<and> input_json (editor_of (and_then (edit_after_undo cap differs) (PerformRedo cap)))
       = JObject [(''b'', JNumberUnsigned 2)]
   \<and> and_then (edit_after_undo cap differs) (PerformRedo cap) \<noteq> edit_after_undo cap differs"
  by code_simp

section \<open>A mutation followed by its undo\<close>

lemma replace_at_twice:
  "node_at d pos = Some n \<Longrightarrow> replace_at (replace_at d pos a) pos b = replace_at d pos b"
proof (induction d pos a arbitrary: n rule: replace_at.induct)
  case (2 kvs k pos a)
  then show ?case by (auto simp: map_of_update_same split: option.splits)
next
  case (3 xs i pos a)
  then show ?case by (auto split: if_splits)
qed auto

lemma through_resolved:
  assumes "walk cap doc p = (doc, Some pos)" "node_at doc pos = Some n" "f n = Inr n'"
  shows "through (GetNode cap doc p) f = Inr (replace_at doc pos n')"
  using assms by (simp add: through_def GetNode_def at_node_replace)

lemma resolved_after_replace:
  assumes "walk cap doc p = (doc, Some pos)" "node_at doc pos = Some n" "is_object n \<or> is_array n"
  shows "walk cap (replace_at doc pos n') p = (replace_at doc pos n', Some pos)"
    and "node_at (replace_at doc pos n') pos = Some n'"
  using assms walk_replaced node_at_replace_at by blast+

text \<open>
  Adding a key the object does not hold, then the recorded undo: the document is as before.
\<close>

lemma add_new_key_then_undo:
  assumes "walk cap doc p = (doc, Some pos)" "node_at doc pos = Some (JObject kvs)"
    "map_of kvs k = None"
  shows "ExecuteAddKey cap p k v doc = Inr (replace_at doc pos (JObject (kvs @ [(k, v)])))"
    and "ExecuteRemoveKey cap p k (replace_at doc pos (JObject (kvs @ [(k, v)]))) = Inr doc"
proof -
  let ?d1 = "replace_at doc pos (JObject (kvs @ [(k, v)]))"
  show "ExecuteAddKey cap p k v doc = Inr ?d1"
    unfolding ExecuteAddKey_def
    by (rule through_resolved[OF assms(1,2)]) (simp add: update_absent assms(3))
  have w: "walk cap ?d1 p = (?d1, Some pos)" "node_at ?d1 pos = Some (JObject (kvs @ [(k, v)]))"
    using resolved_after_replace[OF assms(1,2)] by (simp_all add: is_object_def)
  have k: "k \<notin> fst ` set kvs"
    using assms(3) by (simp add: map_of_eq_None_iff)
  have "ExecuteRemoveKey cap p k ?d1 = Inr (replace_at ?d1 pos (JObject kvs))"
    unfolding ExecuteRemoveKey_def
    by (rule through_resolved[OF w]) (simp add: delete_appended k)
  also have "replace_at ?d1 pos (JObject kvs) = replace_at doc pos (JObject kvs)"
    using assms(2) by (rule replace_at_twice)
  also have "\<dots> = doc"
    using assms(2) by (rule replace_at_same)
  finally show "ExecuteRemoveKey cap p k ?d1 = Inr doc" .
qed

text \<open>
  Deleting a key the object holds, then the recorded undo: the key is back with its value,
  behind the keys that stayed.
\<close>

lemma delete_key_then_undo:
  assumes "walk cap doc p = (doc, Some pos)" "node_at doc pos = Some (JObject kvs)"
    "map_of kvs k = Some v"
  shows "ExecuteRemoveKey cap p k doc = Inr (replace_at doc pos (JObject (AList.delete k kvs)))"
    and "ExecuteAddKey cap p k v (replace_at doc pos (JObject (AList.delete k kvs)))
         = Inr (replace_at doc pos (JObject (AList.delete k kvs @ [(k, v)])))"
proof -
  let ?d1 = "replace_at doc pos (JObject (AList.delete k kvs))"
  show "ExecuteRemoveKey cap p k doc = Inr ?d1"
    unfolding ExecuteRemoveKey_def
    by (rule through_resolved[OF assms(1,2)]) simp
  have w: "walk cap ?d1 p = (?d1, Some pos)" "node_at ?d1 pos = Some (JObject (AList.delete k kvs))"
    using resolved_after_replace[OF assms(1,2)] by (simp_all add: is_object_def)
  have n: "map_of (AList.delete k kvs) k = None"
    by (simp add: delete_conv')
  have "ExecuteAddKey cap p k v ?d1
        = Inr (replace_at ?d1 pos (JObject (AList.delete k kvs @ [(k, v)])))"
    unfolding ExecuteAddKey_def
    by (rule through_resolved[OF w]) (simp add: update_absent n)
  also have "replace_at ?d1 pos (JObject (AList.delete k kvs @ [(k, v)]))
             = replace_at doc pos (JObject (AList.delete k kvs @ [(k, v)]))"
    using assms(2) by (rule replace_at_twice)
  finally show "ExecuteAddKey cap p k v ?d1
         = Inr (replace_at doc pos (JObject (AList.delete k kvs @ [(k, v)])))" .
qed

text \<open>
  Deleting an element of an array, then the recorded undo: the document is as before.
\<close>

lemma delete_element_then_undo:
  assumes "walk cap doc p = (doc, Some pos)" "node_at doc pos = Some (JArray xs)"
    "i < length xs"
  shows "ExecuteRemoveArrayElement cap p (int i) doc
         = Inr (replace_at doc pos (JArray (erase_index i xs)))"
    and "ExecuteInsertArrayElement cap p (int i) (xs ! i)
           (replace_at doc pos (JArray (erase_index i xs))) = Inr doc"
proof -
  let ?d1 = "replace_at doc pos (JArray (erase_index i xs))"
  show "ExecuteRemoveArrayElement cap p (int i) doc = Inr ?d1"
    unfolding ExecuteRemoveArrayElement_def
    by (rule through_resolved[OF assms(1,2)]) (simp add: assms(3))
  have w: "walk cap ?d1 p = (?d1, Some pos)" "node_at ?d1 pos = Some (JArray (erase_index i xs))"
    using resolved_after_replace[OF assms(1,2)] by (simp_all add: is_array_def)
  have restored: "insert_index i (xs ! i) (erase_index i xs) = xs"
    using assms(3)
    by (simp add: insert_index_def erase_index_def min_def Cons_nth_drop_Suc)
  have "ExecuteInsertArrayElement cap p (int i) (xs ! i) ?d1 = Inr (replace_at ?d1 pos (JArray xs))"
    unfolding ExecuteInsertArrayElement_def
    by (rule through_resolved[OF w]) (use assms(3) in \<open>simp add: erase_index_def restored[unfolded erase_index_def]\<close>)
  also have "replace_at ?d1 pos (JArray xs) = replace_at doc pos (JArray xs)"
    using assms(2) by (rule replace_at_twice)
  also have "\<dots> = doc"
    using assms(2) by (rule replace_at_same)
  finally show "ExecuteInsertArrayElement cap p (int i) (xs ! i) ?d1 = Inr doc" .
qed

section \<open>Undo and redo on the example documents\<close>

text \<open>
  Where the undo does restore the position: deleting the first element of \<^verbatim>\<open>[1, 2]\<close> and
  undoing inserts it back at index 0.
\<close>

lemma undo_restores_array_position:
  "input_json (OnDeleteSubmit cap (new_JsonEditor cap (JArray [JNumberUnsigned 1, JNumberUnsigned 2])))
     = JArray [JNumberUnsigned 2]
   \<and> input_json (editor_of (PerformUndo cap
         (OnDeleteSubmit cap (new_JsonEditor cap (JArray [JNumberUnsigned 1, JNumberUnsigned 2])))))
     = JArray [JNumberUnsigned 1, JNumberUnsigned 2]"
  by code_simp

text \<open>
  What \<^verbatim>\<open>RestoreView\<close> selects: the index of the first entry whose key is the focus key,
  and \<open>-1\<close> when no entry has it.
\<close>

lemma index_of_key_absent:
  "k \<notin> key ` set es \<Longrightarrow> index_of_key i es k = - 1"
  by (induction es arbitrary: i) auto

lemma index_of_key_present:
  "k \<in> key ` set es \<Longrightarrow>
   int i \<le> index_of_key i es k \<and> index_of_key i es k < int i + int (length es)
   \<and> key (es ! nat (index_of_key i es k - int i)) = k"
proof (induction es arbitrary: i)
  case Nil
  then show ?case by simp
next
  case (Cons e es)
  show ?case
  proof (cases "key e = k")
    case True
    then show ?thesis by simp
  next
    case False
    with Cons.prems have "k \<in> key ` set es" by auto
    from Cons.IH[OF this, of "Suc i"]
    have a: "int i + 1 \<le> index_of_key (Suc i) es k"
      and b: "index_of_key (Suc i) es k < int i + 1 + int (length es)"
      and c: "key (es ! nat (index_of_key (Suc i) es k - (int i + 1))) = k"
      by (simp_all add: algebra_simps)
    from a have "nat (index_of_key (Suc i) es k - int i)
                 = Suc (nat (index_of_key (Suc i) es k - (int i + 1)))"
      by linarith
    with a b c False show ?thesis by simp

  qed
qed

lemma RestoreView_selection:
  "current_path (RestoreView cap a s) = path a
   \<and> entries (RestoreView cap a s) = entries (UpdateTreeEntries cap (s\<lparr>current_path := path a\<rparr>))
   \<and> selected_tree_item_index (RestoreView cap a s)
       = index_of_key 0 (entries (RestoreView cap a s)) (focus_key a)"
  by (simp add: RestoreView_def Let_def UpdateEditorPane_fields UpdateTreeEntries_fields
      GetIndexFromEntries_def)

text \<open>
  Where the selection is kept in range: \<^verbatim>\<open>RefreshTreeAndCloseModal\<close> leaves an index
  that is 0 or a valid index into the listing it has just rebuilt.
\<close>

lemma RefreshTreeAndCloseModal_selection:
  "selected_tree_item_index (RefreshTreeAndCloseModal cap i s) = 0
   \<or> (0 \<le> selected_tree_item_index (RefreshTreeAndCloseModal cap i s)
      \<and> selected_tree_item_index (RefreshTreeAndCloseModal cap i s)
          < int (length (entries (RefreshTreeAndCloseModal cap i s))))"
  by (simp add: RefreshTreeAndCloseModal_def Let_def UpdateEditorPane_fields)

text \<open>
  C1. Undo does not always bring the document back. On \<^verbatim>\<open>{"a": 1}\<close>, adding the key
  \<^verbatim>\<open>a\<close>, which is already there, overwrites its value with null, and the undo erases the
  key: the document ends as \<^verbatim>\<open>{}\<close>. On \<^verbatim>\<open>{"a": 1, "b": 2}\<close>, deleting \<^verbatim>\<open>a\<close> and
  undoing puts \<^verbatim>\<open>a\<close> back behind \<^verbatim>\<open>b\<close>: the document ends as
  \<^verbatim>\<open>{"b": 2, "a": 1}\<close>.
\<close>

theorem undo_does_not_restore:
  "returned (and_then (add_existing_to_one cap) (PerformUndo cap))
   \<and> input_json (editor_of (add_existing_to_one cap)) = JObject [(''a'', JNull)]
   \<and> input_json (editor_of (and_then (add_existing_to_one cap) (PerformUndo cap))) = JObject []
   \<and> JObject [] \<noteq> scalar_example
   \<and> returned (and_then (delete_first_of_two cap) (PerformUndo cap))
   \<and> input_json (editor_of (delete_first_of_two cap)) = JObject [(''b'', JNumberUnsigned 2)]
   \<and> input_json (editor_of (and_then (delete_first_of_two cap) (PerformUndo cap)))
       = JObject [(''b'', JNumberUnsigned 2), (''a'', JNumberUnsigned 1)]
   \<and> JObject [(''b'', JNumberUnsigned 2), (''a'', JNumberUnsigned 1)] \<noteq> two_keys_example"
  by code_simp

text \<open>
  C4. After an undo the selection can be \<open>-1\<close>. On \<^verbatim>\<open>{"a": 1, "b": 2}\<close>, adding the key
  \<^verbatim>\<open>k\<close> and undoing replays an action whose focus key \<^verbatim>\<open>k\<close> is no longer listed;
  \<^verbatim>\<open>RestoreView\<close> stores the \<open>-1\<close> that \<^verbatim>\<open>GetIndexFromEntries\<close> returns, while the
  listing holds the two entries \<^verbatim>\<open>a\<close> and \<^verbatim>\<open>b\<close>.
\<close>

theorem undo_selects_minus_one:
  "returned (and_then (add_new_to_two cap) (PerformUndo cap))
   \<and> input_json (editor_of (and_then (add_new_to_two cap) (PerformUndo cap))) = two_keys_example
   \<and> map key (entries (editor_of (and_then (add_new_to_two cap) (PerformUndo cap)))) = [''a'', ''b'']
   \<and> selected_tree_item_index (editor_of (and_then (add_new_to_two cap) (PerformUndo cap))) = - 1"
  by code_simp

text \<open>
  C5. Redo after undo does not always reproduce the state after the operation. On
  \<^verbatim>\<open>{"a": 1, "b": 2}\<close>, adding the key \<^verbatim>\<open>a\<close>, which is already there, leaves
  \<^verbatim>\<open>{"a": null, "b": 2}\<close>; the undo erases \<^verbatim>\<open>a\<close> and the redo adds it at the end:
  \<^verbatim>\<open>{"b": 2, "a": null}\<close>.
\<close>

theorem redo_after_undo_reorders:
  "returned (and_then (and_then (add_existing_to_two cap) (PerformUndo cap)) (PerformRedo cap))
   \<and> input_json (editor_of (add_existing_to_two cap))
       = JObject [(''a'', JNull), (''b'', JNumberUnsigned 2)]
   \<and> input_json (editor_of (and_then (add_existing_to_two cap) (PerformUndo cap)))
       = JObject [(''b'', JNumberUnsigned 2)]
   \<and> input_json (editor_of (and_then (and_then (add_existing_to_two cap) (PerformUndo cap)) (PerformRedo cap)))
       = JObject [(''b'', JNumberUnsigned 2), (''a'', JNull)]
   \<and> JObject [(''b'', JNumberUnsigned 2), (''a'', JNull)]
       \<noteq> JObject [(''a'', JNull), (''b'', JNumberUnsigned 2)]"
  by code_simp

end
